theory Spec2Isabelle
  imports Main
begin

section \<open>Documents and the store\<close>

text \<open>
  The server of \<^verbatim>\<open>index.js\<close> keeps two collections, users and thoughts. A document
  identifier (an ObjectId, twelve bytes) is modelled by the number it denotes. A collection
  is the list of its documents in insertion order, which is the order in which a query
  without a sort visits them. The fields of the records are those of \<^verbatim>\<open>userSchema\<close> and
  \<^verbatim>\<open>thoughtSchema\<close>, with the \<^verbatim>\<open>_id\<close> every document carries.
\<close>

type_synonym oid = nat

record user =
  user_id :: oid
  username :: string
  email :: string
  thoughts :: "oid list"
  friends :: "oid list"

record reaction =
  reactionId :: oid
  reactionBody :: string
  reaction_username :: string
  reaction_createdAt :: nat

record thought =
  thought_id :: oid
  thoughtText :: string
  createdAt :: nat
  thought_username :: string
  reactions :: "reaction list"

text \<open>
  \<open>nextId\<close> stands for the generator behind \<^verbatim>\<open>new ObjectId()\<close>: the identifier a
  document receives when the request body gives none. A generated identifier is new, so
  \<open>nextId\<close> stays above the identifier of every document that has been inserted.
\<close>

record store =
  users :: "user list"
  thought_docs :: "thought list"
  nextId :: oid

definition init :: store where
  "init = \<lparr>users = [], thought_docs = [], nextId = 1\<rparr>"

section \<open>Requests and responses\<close>

text \<open>
  A request body is a JSON object. \<^verbatim>\<open>User.create(req.body)\<close> and
  \<^verbatim>\<open>Thought.create(req.body)\<close> take from it every path of the schema, the \<^verbatim>\<open>_id\<close>
  included; identifiers arrive as strings and are cast. A field is present or absent.
  (Of a thought, \<^verbatim>\<open>createdAt\<close> and \<^verbatim>\<open>reactions\<close> in a body are not modelled.)
\<close>

record user_input =
  in_id :: "string option"
  in_username :: "string option"
  in_email :: "string option"
  in_thoughts :: "string list option"
  in_friends :: "string list option"

record thought_input =
  in_thought_id :: "string option"
  in_thoughtText :: "string option"
  in_thought_username :: "string option"

text \<open>
  The body of an update is an update document: paths at the top level are set, and the
  array operators \<^verbatim>\<open>$addToSet\<close>, \<^verbatim>\<open>$push\<close> and \<^verbatim>\<open>$pull\<close> act on an array path. For each
  array of a user the body keeps it, sets it, or applies one of the three operators.
  (Other update operators are not modelled.)
\<close>

datatype array_update = Keep | SetTo "string list" | AddToSet string | Push string | Pull string

record user_update =
  up_username :: "string option"
  up_email :: "string option"
  up_thoughts :: array_update
  up_friends :: array_update

record thought_update =
  up_thoughtText :: "string option"
  up_thought_username :: "string option"

datatype error = CastError | ValidationError | DuplicateKey

text \<open>
  \<^verbatim>\<open>populate('thoughts').populate('friends')\<close> replaces the identifiers of a user by the
  documents they resolve to; an identifier that resolves to nothing is left out.
\<close>

record populated_user =
  p_id :: oid
  p_username :: string
  p_email :: string
  p_thoughts :: "thought list"
  p_friends :: "user list"

datatype reply =
    Message string
  | Raised error
  | UserDoc user
  | Populated populated_user
  | PopulatedList "populated_user list"
  | ThoughtDoc thought
  | ThoughtList "thought list"

record response =
  status :: nat
  body :: reply

section \<open>Casting and validation\<close>

text \<open>
  A route parameter is a string. Mongoose casts it to an ObjectId when it is 24
  hexadecimal digits, in either case, and raises a CastError otherwise. (Older versions
  of the driver also cast a string of 12 characters; here such a string is one that
  cannot be cast.)
\<close>

definition isDigit :: "char \<Rightarrow> bool" where
  "isDigit c = (48 \<le> (of_char c :: nat) \<and> (of_char c :: nat) \<le> 57)"

definition isLower :: "char \<Rightarrow> bool" where
  "isLower c = (97 \<le> (of_char c :: nat) \<and> (of_char c :: nat) \<le> 122)"

definition isUpper :: "char \<Rightarrow> bool" where
  "isUpper c = (65 \<le> (of_char c :: nat) \<and> (of_char c :: nat) \<le> 90)"

definition isHex :: "char \<Rightarrow> bool" where
  "isHex c = (isDigit c
     \<or> (97 \<le> (of_char c :: nat) \<and> (of_char c :: nat) \<le> 102)
     \<or> (65 \<le> (of_char c :: nat) \<and> (of_char c :: nat) \<le> 70))"

definition hexValue :: "char \<Rightarrow> nat" where
  "hexValue c = (if isDigit c then of_char c - 48
                 else if isLower c then of_char c - 87
                 else of_char c - 55)"

definition castObjectId :: "string \<Rightarrow> oid option" where
  "castObjectId s =
     (if length s = 24 \<and> list_all isHex s
      then Some (foldl (\<lambda>n c. 16 * n + hexValue c) 0 s)
      else None)"

fun castAll :: "string list \<Rightarrow> oid list option" where
  "castAll [] = Some []"
| "castAll (x # xs) =
     (case castObjectId x of
        None \<Rightarrow> None
      | Some i \<Rightarrow> (case castAll xs of None \<Rightarrow> None | Some js \<Rightarrow> Some (i # js)))"

definition castArray :: "string list option \<Rightarrow> oid list option" where
  "castArray v = (case v of None \<Rightarrow> Some [] | Some xs \<Rightarrow> castAll xs)"

text \<open>
  \<^verbatim>\<open>trim: true\<close> applies \<^verbatim>\<open>String.prototype.trim\<close> to a username before it is validated,
  stored or used in a filter on users. Strings are sequences of 8-bit characters here;
  the white space of JavaScript in that range is TAB, LF, VT, FF, CR, space and NBSP.
\<close>

definition isSpace :: "char \<Rightarrow> bool" where
  "isSpace c = ((9 \<le> (of_char c :: nat) \<and> (of_char c :: nat) \<le> 13)
     \<or> (of_char c :: nat) = 32 \<or> (of_char c :: nat) = 160)"

definition trim :: "string \<Rightarrow> string" where
  "trim s = rev (dropWhile isSpace (rev (dropWhile isSpace s)))"

text \<open>
  The pattern of the email field,
  \<^verbatim>\<open>/^[a-zA-Z0-9._%+-]+@[a-zA-Z0-9.-]+\.[a-zA-Z]{2,}$/\<close>:
  the string splits at some \<open>i\<close> (the at sign) and some \<open>j\<close> (a dot) into a non-empty
  local part, a non-empty domain and at least two letters.
\<close>

definition localChar :: "char \<Rightarrow> bool" where
  "localChar c = (isLower c \<or> isUpper c \<or> isDigit c \<or> c \<in> set ''._%+-'')"

definition domainChar :: "char \<Rightarrow> bool" where
  "domainChar c = (isLower c \<or> isUpper c \<or> isDigit c \<or> c \<in> set ''.-'')"

definition isAlpha :: "char \<Rightarrow> bool" where
  "isAlpha c = (isLower c \<or> isUpper c)"

definition emailMatch :: "string \<Rightarrow> bool" where
  "emailMatch s =
     list_ex (\<lambda>i. list_ex (\<lambda>j.
         0 < i \<and> list_all localChar (take i s) \<and> s ! i = CHR ''@''
       \<and> i + 1 < j \<and> list_all domainChar (take (j - (i + 1)) (drop (i + 1) s))
       \<and> s ! j = CHR ''.''
       \<and> j + 3 \<le> length s \<and> list_all isAlpha (drop (j + 1) s))
       [0..<length s]) [0..<length s]"

text \<open>
  The validators of the two schemas. \<^verbatim>\<open>required\<close> rejects an absent field and the empty
  string. On create every path is validated; on update (\<^verbatim>\<open>runValidators: true\<close>) only
  the paths the update sets.
\<close>

definition required :: "string option \<Rightarrow> bool" where
  "required v = (case v of None \<Rightarrow> False | Some x \<Rightarrow> x \<noteq> [])"

definition validUsername :: "string option \<Rightarrow> bool" where
  "validUsername v = required (map_option trim v)"

definition validEmail :: "string option \<Rightarrow> bool" where
  "validEmail v = (required v \<and> (case v of None \<Rightarrow> False | Some x \<Rightarrow> emailMatch x))"

definition validThoughtText :: "string option \<Rightarrow> bool" where
  "validThoughtText v =
     (required v \<and> (case v of None \<Rightarrow> False | Some x \<Rightarrow> 1 \<le> length x \<and> length x \<le> 280))"

definition validateUser :: "user_input \<Rightarrow> bool" where
  "validateUser i = (validUsername (in_username i) \<and> validEmail (in_email i))"

definition validateUserUpdate :: "user_update \<Rightarrow> bool" where
  "validateUserUpdate i =
     ((up_username i = None \<or> validUsername (up_username i))
    \<and> (up_email i = None \<or> validEmail (up_email i)))"

definition validateThought :: "thought_input \<Rightarrow> bool" where
  "validateThought i =
     (validThoughtText (in_thoughtText i) \<and> required (in_thought_username i))"

definition validateThoughtUpdate :: "thought_update \<Rightarrow> bool" where
  "validateThoughtUpdate i =
     ((up_thoughtText i = None \<or> validThoughtText (up_thoughtText i))
    \<and> (up_thought_username i = None \<or> required (up_thought_username i)))"

section \<open>Queries on a collection\<close>

text \<open>
  The query helpers of Mongoose that the handlers call, on a collection as a list.
  \<open>findOneAndUpdate\<close> returns the document after the update (\<^verbatim>\<open>new: true\<close>) and the
  collection with the first match replaced; both are unchanged when nothing matches.
\<close>

definition findOne :: "('a \<Rightarrow> bool) \<Rightarrow> 'a list \<Rightarrow> 'a option" where
  "findOne P xs = find P xs"

fun findOneAndUpdate :: "('a \<Rightarrow> bool) \<Rightarrow> ('a \<Rightarrow> 'a) \<Rightarrow> 'a list \<Rightarrow> 'a option \<times> 'a list" where
  "findOneAndUpdate P f [] = (None, [])"
| "findOneAndUpdate P f (x # xs) =
     (if P x then (Some (f x), f x # xs)
      else (case findOneAndUpdate P f xs of (r, ys) \<Rightarrow> (r, x # ys)))"

fun findOneAndDelete :: "('a \<Rightarrow> bool) \<Rightarrow> 'a list \<Rightarrow> 'a option \<times> 'a list" where
  "findOneAndDelete P [] = (None, [])"
| "findOneAndDelete P (x # xs) =
     (if P x then (Some x, xs)
      else (case findOneAndDelete P xs of (r, ys) \<Rightarrow> (r, x # ys)))"

definition deleteMany :: "('a \<Rightarrow> bool) \<Rightarrow> 'a list \<Rightarrow> 'a list" where
  "deleteMany P xs = filter (\<lambda>x. \<not> P x) xs"

text \<open>The array update operators \<^verbatim>\<open>$addToSet\<close>, \<^verbatim>\<open>$pull\<close> and \<^verbatim>\<open>$push\<close>.\<close>

definition addToSet :: "'a \<Rightarrow> 'a list \<Rightarrow> 'a list" where
  "addToSet x xs = (if x \<in> set xs then xs else xs @ [x])"

definition pull :: "'a \<Rightarrow> 'a list \<Rightarrow> 'a list" where
  "pull x xs = filter (\<lambda>y. y \<noteq> x) xs"

definition push :: "'a \<Rightarrow> 'a list \<Rightarrow> 'a list" where
  "push x xs = xs @ [x]"

text \<open>The update documents the handlers pass, as functions on a user.\<close>

definition addToSetFriends :: "oid \<Rightarrow> user \<Rightarrow> user" where
  "addToSetFriends j u = u\<lparr>friends := addToSet j (friends u)\<rparr>"

definition pullFriends :: "oid \<Rightarrow> user \<Rightarrow> user" where
  "pullFriends j u = u\<lparr>friends := pull j (friends u)\<rparr>"

definition pushThoughts :: "oid \<Rightarrow> user \<Rightarrow> user" where
  "pushThoughts t u = u\<lparr>thoughts := push t (thoughts u)\<rparr>"

definition pullThoughts :: "oid \<Rightarrow> user \<Rightarrow> user" where
  "pullThoughts t u = u\<lparr>thoughts := pull t (thoughts u)\<rparr>"

definition byId :: "oid \<Rightarrow> user \<Rightarrow> bool" where
  "byId i u = (user_id u = i)"

definition thoughtById :: "oid \<Rightarrow> thought \<Rightarrow> bool" where
  "thoughtById i t = (thought_id t = i)"

text \<open>
  A filter on the username of a user is cast through \<^verbatim>\<open>userSchema\<close>, whose username
  path trims the value.
\<close>

definition byUsername :: "string \<Rightarrow> user \<Rightarrow> bool" where
  "byUsername n u = (username u = trim n)"

definition populate :: "store \<Rightarrow> user \<Rightarrow> populated_user" where
  "populate s u =
     \<lparr>p_id = user_id u, p_username = username u, p_email = email u,
      p_thoughts = List.map_filter (\<lambda>i. findOne (thoughtById i) (thought_docs s)) (thoughts u),
      p_friends = List.map_filter (\<lambda>i. findOne (byId i) (users s)) (friends u)\<rparr>"

definition respond :: "nat \<Rightarrow> reply \<Rightarrow> response" where
  "respond c b = \<lparr>status = c, body = b\<rparr>"

section \<open>The route handlers\<close>

text \<open>
  Each handler takes the store and the parts of the request it reads, and returns the
  response with the store it leaves. An exception raised inside the \<^verbatim>\<open>try\<close> block is a
  \<open>Raised\<close> reply with the status of the handler's \<^verbatim>\<open>catch\<close>.
\<close>

definition getUsers :: "store \<Rightarrow> response \<times> store" where
  "getUsers s = (respond 200 (PopulatedList (map (populate s) (users s))), s)"

definition getUser :: "store \<Rightarrow> string \<Rightarrow> response \<times> store" where
  "getUser s userId =
     (case castObjectId userId of
        None \<Rightarrow> (respond 500 (Raised CastError), s)
      | Some i \<Rightarrow>
          (case findOne (byId i) (users s) of
             None \<Rightarrow> (respond 404 (Message ''User not found''), s)
           | Some u \<Rightarrow> (respond 200 (Populated (populate s u)), s)))"

text \<open>
  \<^verbatim>\<open>User.create(req.body)\<close> builds the document from the body, casting its identifiers
  (a failed cast is reported as a validation error), validates it, then inserts it; the
  unique indexes on \<^verbatim>\<open>_id\<close>, \<^verbatim>\<open>username\<close> and \<^verbatim>\<open>email\<close> reject the insert of a duplicate.
\<close>

definition documentId :: "store \<Rightarrow> string option \<Rightarrow> oid option" where
  "documentId s v = (case v of None \<Rightarrow> Some (nextId s) | Some x \<Rightarrow> castObjectId x)"

definition castUser :: "store \<Rightarrow> user_input \<Rightarrow> user option" where
  "castUser s inp =
     (case documentId s (in_id inp) of
        None \<Rightarrow> None
      | Some i \<Rightarrow>
          (case castArray (in_thoughts inp) of
             None \<Rightarrow> None
           | Some ts \<Rightarrow>
               (case castArray (in_friends inp) of
                  None \<Rightarrow> None
                | Some fs \<Rightarrow>
                    Some \<lparr>user_id = i,
                          username = (case in_username inp of None \<Rightarrow> [] | Some n \<Rightarrow> trim n),
                          email = (case in_email inp of None \<Rightarrow> [] | Some e \<Rightarrow> e),
                          thoughts = ts, friends = fs\<rparr>)))"

definition createUser :: "store \<Rightarrow> user_input \<Rightarrow> response \<times> store" where
  "createUser s inp =
     (case castUser s inp of
        None \<Rightarrow> (respond 400 (Raised ValidationError), s)
      | Some u \<Rightarrow>
          if \<not> validateUser inp then (respond 400 (Raised ValidationError), s)
          else if list_ex (\<lambda>v. user_id v = user_id u \<or> username v = username u
                            \<or> email v = email u) (users s)
          then (respond 400 (Raised DuplicateKey), s)
          else (respond 200 (UserDoc u),
                s\<lparr>users := users s @ [u], nextId := max (nextId s) (Suc (user_id u))\<rparr>))"

text \<open>
  \<^verbatim>\<open>User.findByIdAndUpdate(req.params.userId, req.body, ...)\<close>: the parameter and the
  operands of the update are cast, the validators run on the paths the update sets, and
  then the first user with the identifier is updated, unless a unique index rejects it.
\<close>

fun castableArrayUpdate :: "array_update \<Rightarrow> bool" where
  "castableArrayUpdate Keep = True"
| "castableArrayUpdate (SetTo xs) = (castAll xs \<noteq> None)"
| "castableArrayUpdate (AddToSet x) = (castObjectId x \<noteq> None)"
| "castableArrayUpdate (Push x) = (castObjectId x \<noteq> None)"
| "castableArrayUpdate (Pull x) = (castObjectId x \<noteq> None)"

fun applyArrayUpdate :: "array_update \<Rightarrow> oid list \<Rightarrow> oid list" where
  "applyArrayUpdate Keep ys = ys"
| "applyArrayUpdate (SetTo xs) ys = (case castAll xs of None \<Rightarrow> ys | Some js \<Rightarrow> js)"
| "applyArrayUpdate (AddToSet x) ys =
     (case castObjectId x of None \<Rightarrow> ys | Some i \<Rightarrow> addToSet i ys)"
| "applyArrayUpdate (Push x) ys = (case castObjectId x of None \<Rightarrow> ys | Some i \<Rightarrow> push i ys)"
| "applyArrayUpdate (Pull x) ys = (case castObjectId x of None \<Rightarrow> ys | Some i \<Rightarrow> pull i ys)"

definition castableUserUpdate :: "user_update \<Rightarrow> bool" where
  "castableUserUpdate upd =
     (castableArrayUpdate (up_thoughts upd) \<and> castableArrayUpdate (up_friends upd))"

definition applyUserUpdate :: "user_update \<Rightarrow> user \<Rightarrow> user" where
  "applyUserUpdate upd u =
     u\<lparr>username := (case up_username upd of None \<Rightarrow> username u | Some n \<Rightarrow> trim n),
       email := (case up_email upd of None \<Rightarrow> email u | Some e \<Rightarrow> e),
       thoughts := applyArrayUpdate (up_thoughts upd) (thoughts u),
       friends := applyArrayUpdate (up_friends upd) (friends u)\<rparr>"

definition updateUser :: "store \<Rightarrow> string \<Rightarrow> user_update \<Rightarrow> response \<times> store" where
  "updateUser s userId upd =
     (case castObjectId userId of
        None \<Rightarrow> (respond 400 (Raised CastError), s)
      | Some i \<Rightarrow>
          if \<not> castableUserUpdate upd then (respond 400 (Raised CastError), s)
          else if \<not> validateUserUpdate upd then (respond 400 (Raised ValidationError), s)
          else
            (case findOneAndUpdate (byId i) (applyUserUpdate upd) (users s) of
               (None, _) \<Rightarrow> (respond 404 (Message ''User not found''), s)
             | (Some u, us) \<Rightarrow>
                 if list_ex (\<lambda>v. username v = username u \<or> email v = email u)
                      (snd (findOneAndDelete (byId i) (users s)))
                 then (respond 400 (Raised DuplicateKey), s)
                 else (respond 200 (UserDoc u), s\<lparr>users := us\<rparr>)))"

definition deleteUser :: "store \<Rightarrow> string \<Rightarrow> response \<times> store" where
  "deleteUser s userId =
     (case castObjectId userId of
        None \<Rightarrow> (respond 500 (Raised CastError), s)
      | Some i \<Rightarrow>
          (case findOneAndDelete (byId i) (users s) of
             (None, _) \<Rightarrow> (respond 404 (Message ''User not found''), s)
           | (Some u, us) \<Rightarrow>
               (respond 200 (Message ''User deleted''),
                s\<lparr>users := us,
                  thought_docs :=
                    deleteMany (\<lambda>t. thought_username t = username u) (thought_docs s)\<rparr>)))"

text \<open>
  Add a friend: both parameters are cast before the first query runs (the second one
  as the operand of \<^verbatim>\<open>$addToSet\<close>); the first update is written before the friend is
  looked up.
\<close>

definition addFriend :: "store \<Rightarrow> string \<Rightarrow> string \<Rightarrow> response \<times> store" where
  "addFriend s userId friendId =
     (case castObjectId userId of
        None \<Rightarrow> (respond 500 (Raised CastError), s)
      | Some i \<Rightarrow>
          (case castObjectId friendId of
             None \<Rightarrow> (respond 500 (Raised CastError), s)
           | Some j \<Rightarrow>
               (case findOneAndUpdate (byId i) (addToSetFriends j) (users s) of
                  (None, _) \<Rightarrow> (respond 404 (Message ''User not found.''), s)
                | (Some u, us1) \<Rightarrow>
                    (case findOneAndUpdate (byId j) (addToSetFriends i) us1 of
                       (None, _) \<Rightarrow>
                         (respond 404 (Message ''Friend not found.''), s\<lparr>users := us1\<rparr>)
                     | (Some f, us2) \<Rightarrow> (respond 200 (UserDoc u), s\<lparr>users := us2\<rparr>)))))"

definition removeFriend :: "store \<Rightarrow> string \<Rightarrow> string \<Rightarrow> response \<times> store" where
  "removeFriend s userId friendId =
     (case castObjectId userId of
        None \<Rightarrow> (respond 500 (Raised CastError), s)
      | Some i \<Rightarrow>
          (case castObjectId friendId of
             None \<Rightarrow> (respond 500 (Raised CastError), s)
           | Some j \<Rightarrow>
               (case findOneAndUpdate (byId i) (pullFriends j) (users s) of
                  (None, _) \<Rightarrow> (respond 404 (Message ''User not found''), s)
                | (Some u, us1) \<Rightarrow>
                    (case findOneAndUpdate (byId j) (pullFriends i) us1 of
                       (_, us2) \<Rightarrow> (respond 200 (UserDoc u), s\<lparr>users := us2\<rparr>)))))"

definition getThoughts :: "store \<Rightarrow> response \<times> store" where
  "getThoughts s = (respond 200 (ThoughtList (thought_docs s)), s)"

definition getThought :: "store \<Rightarrow> string \<Rightarrow> response \<times> store" where
  "getThought s thoughtId =
     (case castObjectId thoughtId of
        None \<Rightarrow> (respond 500 (Raised CastError), s)
      | Some i \<Rightarrow>
          (case findOne (thoughtById i) (thought_docs s) of
             None \<Rightarrow> (respond 404 (Message ''Thought not found''), s)
           | Some t \<Rightarrow> (respond 200 (ThoughtDoc t), s)))"

text \<open>
  Create a thought: \<^verbatim>\<open>Thought.create(req.body)\<close> builds the document as for a user;
  \<open>now\<close> is the value of \<^verbatim>\<open>Date.now\<close> that \<^verbatim>\<open>createdAt\<close> defaults to. The identifier
  of the thought is then pushed onto the thoughts of the user with the username of the
  body (here the username of the thought: the two are the same string); the result of
  that update is not inspected.
\<close>

definition castThought :: "store \<Rightarrow> nat \<Rightarrow> thought_input \<Rightarrow> thought option" where
  "castThought s now inp =
     (case documentId s (in_thought_id inp) of
        None \<Rightarrow> None
      | Some i \<Rightarrow>
          Some \<lparr>thought_id = i,
                thoughtText = (case in_thoughtText inp of None \<Rightarrow> [] | Some x \<Rightarrow> x),
                createdAt = now,
                thought_username = (case in_thought_username inp of None \<Rightarrow> [] | Some n \<Rightarrow> n),
                reactions = []\<rparr>)"

definition createThought :: "store \<Rightarrow> nat \<Rightarrow> thought_input \<Rightarrow> response \<times> store" where
  "createThought s now inp =
     (case castThought s now inp of
        None \<Rightarrow> (respond 400 (Raised ValidationError), s)
      | Some t \<Rightarrow>
          if \<not> validateThought inp then (respond 400 (Raised ValidationError), s)
          else if list_ex (\<lambda>x. thought_id x = thought_id t) (thought_docs s)
          then (respond 400 (Raised DuplicateKey), s)
          else (respond 200 (ThoughtDoc t),
                s\<lparr>users := snd (findOneAndUpdate (byUsername (thought_username t))
                               (pushThoughts (thought_id t)) (users s)),
                  thought_docs := thought_docs s @ [t],
                  nextId := max (nextId s) (Suc (thought_id t))\<rparr>))"

definition applyThoughtUpdate :: "thought_update \<Rightarrow> thought \<Rightarrow> thought" where
  "applyThoughtUpdate upd t =
     t\<lparr>thoughtText := (case up_thoughtText upd of None \<Rightarrow> thoughtText t | Some x \<Rightarrow> x),
       thought_username :=
         (case up_thought_username upd of None \<Rightarrow> thought_username t | Some n \<Rightarrow> n)\<rparr>"

definition updateThought :: "store \<Rightarrow> string \<Rightarrow> thought_update \<Rightarrow> response \<times> store" where
  "updateThought s thoughtId upd =
     (case castObjectId thoughtId of
        None \<Rightarrow> (respond 400 (Raised CastError), s)
      | Some i \<Rightarrow>
          if \<not> validateThoughtUpdate upd then (respond 400 (Raised ValidationError), s)
          else
            (case findOneAndUpdate (thoughtById i) (applyThoughtUpdate upd) (thought_docs s) of
               (None, _) \<Rightarrow> (respond 404 (Message ''Thought not found''), s)
             | (Some t, ts) \<Rightarrow> (respond 200 (ThoughtDoc t), s\<lparr>thought_docs := ts\<rparr>)))"

definition deleteThought :: "store \<Rightarrow> string \<Rightarrow> response \<times> store" where
  "deleteThought s thoughtId =
     (case castObjectId thoughtId of
        None \<Rightarrow> (respond 500 (Raised CastError), s)
      | Some i \<Rightarrow>
          (case findOneAndDelete (thoughtById i) (thought_docs s) of
             (None, _) \<Rightarrow> (respond 404 (Message ''Thought not found''), s)
           | (Some t, ts) \<Rightarrow>
               (respond 200 (Message ''Thought deleted''),
                s\<lparr>users := snd (findOneAndUpdate (byUsername (thought_username t))
                               (pullThoughts (thought_id t))
                               (users s)),
                  thought_docs := ts\<rparr>)))"

section \<open>The server as a transition system\<close>

datatype request =
    GetUsers
  | GetUser string
  | CreateUser user_input
  | UpdateUser string user_update
  | DeleteUser string
  | AddFriend string string
  | RemoveFriend string string
  | GetThoughts
  | GetThought string
  | CreateThought nat thought_input
  | UpdateThought string thought_update
  | DeleteThought string

fun step :: "store \<Rightarrow> request \<Rightarrow> response \<times> store" where
  "step s GetUsers = getUsers s"
| "step s (GetUser a) = getUser s a"
| "step s (CreateUser inp) = createUser s inp"
| "step s (UpdateUser a inp) = updateUser s a inp"
| "step s (DeleteUser a) = deleteUser s a"
| "step s (AddFriend a b) = addFriend s a b"
| "step s (RemoveFriend a b) = removeFriend s a b"
| "step s GetThoughts = getThoughts s"
| "step s (GetThought a) = getThought s a"
| "step s (CreateThought now inp) = createThought s now inp"
| "step s (UpdateThought a inp) = updateThought s a inp"
| "step s (DeleteThought a) = deleteThought s a"

fun run :: "store \<Rightarrow> request list \<Rightarrow> store" where
  "run s [] = s"
| "run s (r # rs) = run (snd (step s r)) rs"

inductive reachable :: "store \<Rightarrow> bool" where
  reachable_init: "reachable init"
| reachable_step: "reachable s \<Longrightarrow> reachable (snd (step s r))"

section \<open>Properties of a store\<close>

text \<open>
  The friendship relation of a store is valid when every identifier in a friends array
  is the identifier of a user of the store whose friends array holds the owner in turn.
\<close>

definition friendsValid :: "store \<Rightarrow> bool" where
  "friendsValid s =
     list_all (\<lambda>u. list_all (\<lambda>f.
         list_ex (\<lambda>v. user_id v = f \<and> user_id u \<in> set (friends v)) (users s))
       (friends u)) (users s)"

text \<open>
  The steps that leave a valid friendship relation valid. For the four requests that can
  write a friends array without its counterpart the condition is: a Create adds no user
  that lists anybody but itself; an Update leaves the set of the other users in the
  friends of the updated user as it was; the identifier of a Delete is in the friends of
  no other user; an AddFriend does not fail on the lookup of the friend. Every other
  request qualifies.
\<close>

fun keepsFriends :: "store \<Rightarrow> request \<Rightarrow> bool" where
  "keepsFriends s (CreateUser inp) =
     list_all (\<lambda>u. u \<in> set (users s) \<or> list_all (\<lambda>f. f = user_id u) (friends u))
       (users (snd (createUser s inp)))"
| "keepsFriends s (UpdateUser a upd) =
     (case castObjectId a of
        None \<Rightarrow> True
      | Some i \<Rightarrow>
          (case findOne (byId i) (users s) of
             None \<Rightarrow> True
           | Some u \<Rightarrow>
               (case findOne (byId i) (users (snd (updateUser s a upd))) of
                  None \<Rightarrow> True
                | Some u' \<Rightarrow> set (friends u') - {i} = set (friends u) - {i})))"
| "keepsFriends s (DeleteUser a) =
     (case castObjectId a of
        None \<Rightarrow> True
      | Some i \<Rightarrow> list_all (\<lambda>u. user_id u = i \<or> i \<notin> set (friends u)) (users s))"
| "keepsFriends s (AddFriend a b) =
     (body (fst (addFriend s a b)) \<noteq> Message ''Friend not found.'')"
| "keepsFriends s _ = True"

text \<open>
  What the unique indexes, the trimming of usernames and the generation of identifiers
  maintain: identifiers, usernames and emails are pairwise distinct, stored usernames are
  trimmed, and the identifier of every document is older than the next one generated.
\<close>

definition usersInv :: "oid \<Rightarrow> user list \<Rightarrow> bool" where
  "usersInv n us =
     (distinct (map user_id us)
    \<and> distinct (map username us)
    \<and> distinct (map email us)
    \<and> list_all (\<lambda>u. trim (username u) = username u) us
    \<and> list_all (\<lambda>u. user_id u < n) us)"

definition thoughtsInv :: "oid \<Rightarrow> thought list \<Rightarrow> bool" where
  "thoughtsInv n ts =
     (distinct (map thought_id ts) \<and> list_all (\<lambda>t. thought_id t < n) ts)"

definition storeInv :: "store \<Rightarrow> bool" where
  "storeInv s = (usersInv (nextId s) (users s) \<and> thoughtsInv (nextId s) (thought_docs s))"

section \<open>Sample data\<close>

text \<open>Concrete parameters, request bodies and stores on which the results are evaluated.\<close>

definition sample_id1 :: string where
  "sample_id1 = ''000000000000000000000001''"

definition sample_id2 :: string where
  "sample_id2 = ''000000000000000000000002''"

definition sample_id3 :: string where
  "sample_id3 = ''000000000000000000000003''"

definition sample_alice :: user_input where
  "sample_alice = \<lparr>in_id = None, in_username = Some ''alice'',
     in_email = Some ''alice@example.com'', in_thoughts = None, in_friends = None\<rparr>"

definition sample_bob :: user_input where
  "sample_bob = \<lparr>in_id = None, in_username = Some '' bob '',
     in_email = Some ''bob@example.org'', in_thoughts = None, in_friends = None\<rparr>"

definition sample_thought :: thought_input where
  "sample_thought = \<lparr>in_thought_id = None, in_thoughtText = Some ''hi'',
     in_thought_username = Some ''alice''\<rparr>"

definition sample_store :: store where
  "sample_store = run init [CreateUser sample_alice, CreateUser sample_bob]"

definition sample_store_thought :: store where
  "sample_store_thought = run sample_store [CreateThought 5 sample_thought]"

definition sample_thought_again :: thought_input where
  "sample_thought_again = \<lparr>in_thought_id = Some sample_id3, in_thoughtText = Some ''hi again'',
     in_thought_username = Some ''alice''\<rparr>"

definition sample_rename :: thought_update where
  "sample_rename = \<lparr>up_thoughtText = None, up_thought_username = Some ''bob''\<rparr>"

definition sample_mallory :: user_input where
  "sample_mallory = \<lparr>in_id = None, in_username = Some ''mallory'',
     in_email = Some ''m@d.io'', in_thoughts = None,
     in_friends = Some [''000000000000000000000009'']\<rparr>"

section \<open>Facts about the queries\<close>

lemma fst_findOneAndUpdate: "fst (findOneAndUpdate P f xs) = map_option f (find P xs)"
  by (induction xs) (auto split: prod.splits)

lemma findOneAndUpdate_eq:
  "findOneAndUpdate P f xs = (map_option f (find P xs), snd (findOneAndUpdate P f xs))"
  by (metis fst_findOneAndUpdate prod.collapse)

lemma fst_findOneAndDelete: "fst (findOneAndDelete P xs) = find P xs"
  by (induction xs) (auto split: prod.splits)

lemma findOneAndDelete_eq:
  "findOneAndDelete P xs = (find P xs, snd (findOneAndDelete P xs))"
  by (metis fst_findOneAndDelete prod.collapse)

lemma find_update_same:
  assumes key: "\<And>x. P (f x) = P x"
  shows "find P (snd (findOneAndUpdate P f xs)) = map_option f (find P xs)"
proof (induction xs)
  case Nil
  show ?case by simp
next
  case (Cons y ys)
  show ?case
  proof (cases "P y")
    case True
    moreover from True have "P (f y)" by (simp only: key)
    ultimately show ?thesis by simp
  next
    case False
    with Cons.IH show ?thesis by (simp add: case_prod_unfold)
  qed
qed

lemma find_update_other:
  "(\<And>x. Q (f x) = Q x) \<Longrightarrow> (\<And>x. P x \<Longrightarrow> \<not> Q x) \<Longrightarrow>
   find Q (snd (findOneAndUpdate P f xs)) = find Q xs"
  by (induction xs) (auto split: prod.splits)

lemma update_fixed:
  "find P xs = Some x \<Longrightarrow> f x = x \<Longrightarrow> snd (findOneAndUpdate P f xs) = xs"
  by (induction xs) (auto split: prod.splits if_splits)

lemma update_no_match:
  "find P xs = None \<Longrightarrow> snd (findOneAndUpdate P f xs) = xs"
  by (induction xs) (auto split: prod.splits if_splits)

lemma delete_no_match:
  "find P xs = None \<Longrightarrow> snd (findOneAndDelete P xs) = xs"
  by (induction xs) (auto split: prod.splits if_splits)

lemma map_update_key:
  "(\<And>x. g (f x) = g x) \<Longrightarrow> map g (snd (findOneAndUpdate P f xs)) = map g xs"
  by (induction xs) (auto split: prod.splits)

lemma byId_addToSetFriends [simp]: "byId i (addToSetFriends j u) = byId i u"
  by (simp add: byId_def addToSetFriends_def)

lemma byId_pullFriends [simp]: "byId i (pullFriends j u) = byId i u"
  by (simp add: byId_def pullFriends_def)

lemma byId_distinct: "i \<noteq> j \<Longrightarrow> byId j x \<Longrightarrow> \<not> byId i x"
  by (auto simp: byId_def)

lemma addToSetFriends_idem [simp]: "addToSetFriends j (addToSetFriends j u) = addToSetFriends j u"
  by (simp add: addToSetFriends_def addToSet_def)

lemma addToSetFriends_mem [simp]: "j \<in> set (friends (addToSetFriends j u))"
  by (simp add: addToSetFriends_def addToSet_def)

lemma addToSetFriends_mono: "k \<in> set (friends u) \<Longrightarrow> k \<in> set (friends (addToSetFriends j u))"
  by (simp add: addToSetFriends_def addToSet_def)

lemma addToSetFriends_fixed: "j \<in> set (friends u) \<Longrightarrow> addToSetFriends j u = u"
  by (simp add: addToSetFriends_def addToSet_def)

lemma pullFriends_not_mem [simp]: "j \<notin> set (friends (pullFriends j u))"
  by (simp add: pullFriends_def pull_def)

lemma pullFriends_subset: "k \<in> set (friends (pullFriends j u)) \<Longrightarrow> k \<in> set (friends u)"
  by (simp add: pullFriends_def pull_def)

lemma addFriend_unfold:
  "addFriend s a b =
     (case castObjectId a of
        None \<Rightarrow> (respond 500 (Raised CastError), s)
      | Some i \<Rightarrow>
          (case castObjectId b of
             None \<Rightarrow> (respond 500 (Raised CastError), s)
           | Some j \<Rightarrow>
               (case find (byId i) (users s) of
                  None \<Rightarrow> (respond 404 (Message ''User not found.''), s)
                | Some u \<Rightarrow>
                    (let us1 = snd (findOneAndUpdate (byId i) (addToSetFriends j) (users s)) in
                     case find (byId j) us1 of
                       None \<Rightarrow> (respond 404 (Message ''Friend not found.''), s\<lparr>users := us1\<rparr>)
                     | Some v \<Rightarrow>
                         (respond 200 (UserDoc (addToSetFriends j u)),
                          s\<lparr>users := snd (findOneAndUpdate (byId j) (addToSetFriends i) us1)\<rparr>)))))"
  by (simp add: addFriend_def case_prod_unfold fst_findOneAndUpdate Let_def
      split: option.splits)

lemma removeFriend_unfold:
  "removeFriend s a b =
     (case castObjectId a of
        None \<Rightarrow> (respond 500 (Raised CastError), s)
      | Some i \<Rightarrow>
          (case castObjectId b of
             None \<Rightarrow> (respond 500 (Raised CastError), s)
           | Some j \<Rightarrow>
               (case find (byId i) (users s) of
                  None \<Rightarrow> (respond 404 (Message ''User not found''), s)
                | Some u \<Rightarrow>
                    (respond 200 (UserDoc (pullFriends j u)),
                     s\<lparr>users := snd (findOneAndUpdate (byId j) (pullFriends i)
                         (snd (findOneAndUpdate (byId i) (pullFriends j) (users s))))\<rparr>))))"
  by (simp add: removeFriend_def case_prod_unfold fst_findOneAndUpdate
      split: option.splits)

lemma sample_ids:
  "castObjectId sample_id1 = Some 1" "castObjectId sample_id2 = Some 2"
  "castObjectId sample_id3 = Some 3"
  by (simp_all add: sample_id1_def sample_id2_def sample_id3_def castObjectId_def isHex_def
      isDigit_def hexValue_def)

lemma sample_store_eq:
  "sample_store =
     \<lparr>users = [\<lparr>user_id = 1, username = ''alice'', email = ''alice@example.com'',
                 thoughts = [], friends = []\<rparr>,
               \<lparr>user_id = 2, username = ''bob'', email = ''bob@example.org'',
                 thoughts = [], friends = []\<rparr>],
      thought_docs = [], nextId = 3\<rparr>"
  by code_simp

lemma sample_store_thought_eq:
  "sample_store_thought =
     \<lparr>users = [\<lparr>user_id = 1, username = ''alice'', email = ''alice@example.com'',
                 thoughts = [3], friends = []\<rparr>,
               \<lparr>user_id = 2, username = ''bob'', email = ''bob@example.org'',
                 thoughts = [], friends = []\<rparr>],
      thought_docs = [\<lparr>thought_id = 3, thoughtText = ''hi'', createdAt = 5,
                       thought_username = ''alice'', reactions = []\<rparr>],
      nextId = 4\<rparr>"
  by code_simp

section \<open>Friendship\<close>

text \<open>
  C1. When both identifiers resolve to distinct users of the store, AddFriend answers 200
  and afterwards each of the two users lists the other in its friends; RemoveFriend
  answers 200 and afterwards neither lists the other.
\<close>

theorem friend_symmetry:
  assumes a: "castObjectId a = Some i" and b: "castObjectId b = Some j"
    and ne: "i \<noteq> j"
    and ua: "findOne (byId i) (users s) = Some ua"
    and ub: "findOne (byId j) (users s) = Some ub"
  shows "(status (fst (addFriend s a b)) = 200
        \<and> (\<exists>u v. findOne (byId i) (users (snd (addFriend s a b))) = Some u
                \<and> j \<in> set (friends u)
                \<and> findOne (byId j) (users (snd (addFriend s a b))) = Some v
                \<and> i \<in> set (friends v)))
       \<and> (status (fst (removeFriend s a b)) = 200
        \<and> (\<exists>u v. findOne (byId i) (users (snd (removeFriend s a b))) = Some u
                \<and> j \<notin> set (friends u)
                \<and> findOne (byId j) (users (snd (removeFriend s a b))) = Some v
                \<and> i \<notin> set (friends v)))"
proof -
  from ne have ij: "\<And>x. byId j x \<Longrightarrow> \<not> byId i x" and ji: "\<And>x. byId i x \<Longrightarrow> \<not> byId j x"
    by (auto simp: byId_def)
  define us1 where "us1 = snd (findOneAndUpdate (byId i) (addToSetFriends j) (users s))"
  define us2 where "us2 = snd (findOneAndUpdate (byId j) (addToSetFriends i) us1)"
  have j1: "find (byId j) us1 = Some ub"
    unfolding us1_def using ub ji by (simp add: find_update_other findOne_def)
  have i1: "find (byId i) us1 = Some (addToSetFriends j ua)"
    unfolding us1_def using ua by (simp add: find_update_same findOne_def)
  have i2: "find (byId i) us2 = Some (addToSetFriends j ua)"
    unfolding us2_def using i1 ij by (simp add: find_update_other)
  have j2: "find (byId j) us2 = Some (addToSetFriends i ub)"
    unfolding us2_def using j1 by (simp add: find_update_same)
  have add: "addFriend s a b = (respond 200 (UserDoc (addToSetFriends j ua)), s\<lparr>users := us2\<rparr>)"
    using a b ua j1 by (simp add: addFriend_unfold findOne_def Let_def us1_def us2_def)
  define vs1 where "vs1 = snd (findOneAndUpdate (byId i) (pullFriends j) (users s))"
  define vs2 where "vs2 = snd (findOneAndUpdate (byId j) (pullFriends i) vs1)"
  have rj1: "find (byId j) vs1 = Some ub"
    unfolding vs1_def using ub ji by (simp add: find_update_other findOne_def)
  have ri1: "find (byId i) vs1 = Some (pullFriends j ua)"
    unfolding vs1_def using ua by (simp add: find_update_same findOne_def)
  have ri2: "find (byId i) vs2 = Some (pullFriends j ua)"
    unfolding vs2_def using ri1 ij by (simp add: find_update_other)
  have rj2: "find (byId j) vs2 = Some (pullFriends i ub)"
    unfolding vs2_def using rj1 by (simp add: find_update_same)
  have rem: "removeFriend s a b = (respond 200 (UserDoc (pullFriends j ua)), s\<lparr>users := vs2\<rparr>)"
    using a b ua by (simp add: removeFriend_unfold findOne_def vs1_def vs2_def)
  show ?thesis
    using add rem i2 j2 ri2 rj2 by (simp add: findOne_def respond_def)
qed

theorem friend_symmetry_witness:
  "castObjectId sample_id1 = Some 1 \<and> castObjectId sample_id2 = Some 2
   \<and> findOne (byId 1) (users sample_store) \<noteq> None
   \<and> findOne (byId 2) (users sample_store) \<noteq> None
   \<and> status (fst (addFriend sample_store sample_id1 sample_id2)) = 200
   \<and> (\<exists>u v. findOne (byId 1) (users (snd (addFriend sample_store sample_id1 sample_id2))) = Some u
           \<and> 2 \<in> set (friends u)
           \<and> findOne (byId 2) (users (snd (addFriend sample_store sample_id1 sample_id2))) = Some v
           \<and> 1 \<in> set (friends v))
   \<and> status (fst (removeFriend sample_store sample_id1 sample_id2)) = 200"
proof -
  have u1: "findOne (byId 1) (users sample_store) = Some (hd (users sample_store))"
    by (simp add: sample_store_eq findOne_def byId_def)
  have u2: "findOne (byId 2) (users sample_store) = Some (hd (tl (users sample_store)))"
    by (simp add: sample_store_eq findOne_def byId_def)
  have ne: "(1::nat) \<noteq> 2" by simp
  note r = friend_symmetry [OF sample_ids(1) sample_ids(2) ne u1 u2]
  have e1: "findOne (byId 1) (users sample_store) \<noteq> None" using u1 by simp
  have e2: "findOne (byId 2) (users sample_store) \<noteq> None" using u2 by simp
  from r e1 e2 sample_ids(1) sample_ids(2) show ?thesis by blast
qed

text \<open>
  C8. Two AddFriend calls in succession leave the store that one call leaves, whatever
  the parameters and the store.
\<close>

theorem addFriend_idempotent:
  "snd (addFriend (snd (addFriend s a b)) a b) = snd (addFriend s a b)"
proof (cases "castObjectId a")
  case None
  then show ?thesis by (simp add: addFriend_unfold)
next
  case (Some i)
  note ci = this
  show ?thesis
  proof (cases "castObjectId b")
    case None
    with ci show ?thesis by (simp add: addFriend_unfold)
  next
    case (Some j)
    note cj = this
    show ?thesis
    proof (cases "find (byId i) (users s)")
      case None
      with ci cj show ?thesis by (simp add: addFriend_unfold)
    next
      case (Some u)
      note fu = this
      define us1 where "us1 = snd (findOneAndUpdate (byId i) (addToSetFriends j) (users s))"
      have f1: "find (byId i) us1 = Some (addToSetFriends j u)"
        unfolding us1_def using fu by (simp add: find_update_same)
      have fix1: "snd (findOneAndUpdate (byId i) (addToSetFriends j) us1) = us1"
        using f1 by (rule update_fixed) simp
      show ?thesis
      proof (cases "find (byId j) us1")
        case None
        have "addFriend s a b = (respond 404 (Message ''Friend not found.''), s\<lparr>users := us1\<rparr>)"
          using ci cj fu None by (simp add: addFriend_unfold us1_def Let_def)
        moreover have "snd (addFriend (s\<lparr>users := us1\<rparr>) a b) = s\<lparr>users := us1\<rparr>"
          using ci cj f1 fix1 None by (simp add: addFriend_unfold Let_def)
        ultimately show ?thesis by simp
      next
        case (Some v)
        define us2 where "us2 = snd (findOneAndUpdate (byId j) (addToSetFriends i) us1)"
        have first: "snd (addFriend s a b) = s\<lparr>users := us2\<rparr>"
          using ci cj fu Some by (simp add: addFriend_unfold us1_def us2_def Let_def)
        have f2j: "find (byId j) us2 = Some (addToSetFriends i v)"
          unfolding us2_def using Some by (simp add: find_update_same)
        obtain w where f2i: "find (byId i) us2 = Some w" and wj: "j \<in> set (friends w)"
        proof (cases "i = j")
          case True
          with f2j have "find (byId i) us2 = Some (addToSetFriends i v)" by simp
          moreover from True f1 Some have "v = addToSetFriends j u" by simp
          then have "j \<in> set (friends (addToSetFriends i v))"
            by (simp add: addToSetFriends_mono)
          ultimately show ?thesis using that by blast
        next
          case False
          then have "\<And>x. byId j x \<Longrightarrow> \<not> byId i x" by (auto simp: byId_def)
          then have "find (byId i) us2 = Some (addToSetFriends j u)"
            unfolding us2_def using f1 by (simp add: find_update_other)
          then show ?thesis using that by simp
        qed
        have fix2: "snd (findOneAndUpdate (byId i) (addToSetFriends j) us2) = us2"
          using f2i by (rule update_fixed) (simp add: addToSetFriends_fixed wj)
        have fix3: "snd (findOneAndUpdate (byId j) (addToSetFriends i) us2) = us2"
          using f2j by (rule update_fixed) simp
        have "snd (addFriend (s\<lparr>users := us2\<rparr>) a b) = s\<lparr>users := us2\<rparr>"
          using ci cj f2i f2j fix2 fix3 by (simp add: addFriend_unfold Let_def)
        with first show ?thesis by simp
      qed
    qed
  qed
qed

theorem addFriend_idempotent_witness:
  "status (fst (addFriend sample_store sample_id1 sample_id2)) = 200
   \<and> users (snd (addFriend sample_store sample_id1 sample_id2)) \<noteq> users sample_store
   \<and> snd (addFriend (snd (addFriend sample_store sample_id1 sample_id2)) sample_id1 sample_id2)
       = snd (addFriend sample_store sample_id1 sample_id2)"
proof -
  have "status (fst (addFriend sample_store sample_id1 sample_id2)) = 200"
    by code_simp
  moreover have "users (snd (addFriend sample_store sample_id1 sample_id2)) \<noteq> users sample_store"
    by code_simp
  ultimately show ?thesis
    using addFriend_idempotent [of sample_store sample_id1 sample_id2] by blast
qed

text \<open>
  C10. AddFriend with the same identifier in both places, resolving to a user of the
  store, answers 200 and leaves the user's own identifier in its friends.
\<close>

theorem addFriend_self:
  assumes a: "castObjectId a = Some i"
    and ua: "findOne (byId i) (users s) = Some ua"
  shows "status (fst (addFriend s a a)) = 200
       \<and> (\<exists>u. findOne (byId i) (users (snd (addFriend s a a))) = Some u
              \<and> i \<in> set (friends u))"
proof -
  define us1 where "us1 = snd (findOneAndUpdate (byId i) (addToSetFriends i) (users s))"
  define us2 where "us2 = snd (findOneAndUpdate (byId i) (addToSetFriends i) us1)"
  have i1: "find (byId i) us1 = Some (addToSetFriends i ua)"
    unfolding us1_def using ua by (simp add: find_update_same findOne_def)
  have i2: "find (byId i) us2 = Some (addToSetFriends i ua)"
    unfolding us2_def using i1 by (simp add: find_update_same)
  have "addFriend s a a = (respond 200 (UserDoc (addToSetFriends i ua)), s\<lparr>users := us2\<rparr>)"
    using a ua i1 by (simp add: addFriend_unfold findOne_def Let_def us1_def us2_def)
  with i2 show ?thesis by (simp add: findOne_def respond_def)
qed

theorem addFriend_self_witness:
  "castObjectId sample_id1 = Some 1
   \<and> findOne (byId 1) (users sample_store) \<noteq> None
   \<and> status (fst (addFriend sample_store sample_id1 sample_id1)) = 200
   \<and> (\<exists>u. findOne (byId 1) (users (snd (addFriend sample_store sample_id1 sample_id1))) = Some u
          \<and> 1 \<in> set (friends u))"
proof -
  have u1: "findOne (byId 1) (users sample_store) = Some (hd (users sample_store))"
    by (simp add: sample_store_eq findOne_def byId_def)
  then have e1: "findOne (byId 1) (users sample_store) \<noteq> None" by simp
  from addFriend_self [OF sample_ids(1) u1] e1 sample_ids(1) show ?thesis by blast
qed

section \<open>Failing AddFriend\<close>

text \<open>
  C2, as stated, fails: in the sample store the first parameter resolves to a user,
  the second one is well formed and resolves to nothing; AddFriend answers 404 and has
  written the second identifier into the friends of the first user.
\<close>

theorem addFriend_partial_write:
  "castObjectId sample_id1 = Some 1 \<and> castObjectId sample_id3 = Some 3
   \<and> findOne (byId 3) (users sample_store) = None
   \<and> status (fst (addFriend sample_store sample_id1 sample_id3)) = 404
   \<and> map friends (users sample_store) = [[], []]
   \<and> map friends (users (snd (addFriend sample_store sample_id1 sample_id3))) = [[3], []]"
  by code_simp

text \<open>
  C2, amended. With well-formed parameters AddFriend answers 404 when either of them
  resolves to no user. When the first one resolves to no user the store is unchanged;
  when the first one resolves and the second one does not, the second identifier has
  been added to the friends of the first user and nothing else has changed.
\<close>

theorem addFriend_not_found:
  assumes a: "castObjectId a = Some i" and b: "castObjectId b = Some j"
  shows "(findOne (byId i) (users s) = None \<longrightarrow>
            addFriend s a b = (respond 404 (Message ''User not found.''), s))
       \<and> (\<forall>u. findOne (byId i) (users s) = Some u \<and> findOne (byId j) (users s) = None \<longrightarrow>
            fst (addFriend s a b) = respond 404 (Message ''Friend not found.'')
          \<and> snd (addFriend s a b)
              = s\<lparr>users := snd (findOneAndUpdate (byId i) (addToSetFriends j) (users s))\<rparr>
          \<and> findOne (byId i) (users (snd (addFriend s a b))) = Some (addToSetFriends j u)
          \<and> (\<forall>k. k \<noteq> i \<longrightarrow> findOne (byId k) (users (snd (addFriend s a b)))
                               = findOne (byId k) (users s))
          \<and> thought_docs (snd (addFriend s a b)) = thought_docs s)"
proof (intro conjI allI impI)
  assume "findOne (byId i) (users s) = None"
  with a b show "addFriend s a b = (respond 404 (Message ''User not found.''), s)"
    by (simp add: addFriend_unfold findOne_def)
next
  fix u
  assume h: "findOne (byId i) (users s) = Some u \<and> findOne (byId j) (users s) = None"
  define us1 where "us1 = snd (findOneAndUpdate (byId i) (addToSetFriends j) (users s))"
  from h have ne: "i \<noteq> j" by auto
  have other: "find (byId k) us1 = find (byId k) (users s)" if "k \<noteq> i" for k
  proof -
    from that have "\<And>x. byId i x \<Longrightarrow> \<not> byId k x" by (auto simp: byId_def)
    then show ?thesis unfolding us1_def by (simp add: find_update_other)
  qed
  from ne h have j1: "find (byId j) us1 = None"
    by (simp add: other findOne_def)
  have i1: "find (byId i) us1 = Some (addToSetFriends j u)"
    unfolding us1_def using h by (simp add: find_update_same findOne_def)
  have res: "addFriend s a b = (respond 404 (Message ''Friend not found.''), s\<lparr>users := us1\<rparr>)"
    using a b h j1 by (simp add: addFriend_unfold findOne_def Let_def us1_def)
  show "fst (addFriend s a b) = respond 404 (Message ''Friend not found.'')"
    using res by simp
  show "snd (addFriend s a b)
          = s\<lparr>users := snd (findOneAndUpdate (byId i) (addToSetFriends j) (users s))\<rparr>"
    using res by (simp add: us1_def)
  show "findOne (byId i) (users (snd (addFriend s a b))) = Some (addToSetFriends j u)"
    using res i1 by (simp add: findOne_def)
  show "thought_docs (snd (addFriend s a b)) = thought_docs s"
    using res by simp
  fix k
  assume "k \<noteq> i"
  then show "findOne (byId k) (users (snd (addFriend s a b))) = findOne (byId k) (users s)"
    using res other by (simp add: findOne_def)
qed

theorem addFriend_not_found_witness:
  "castObjectId sample_id1 = Some 1 \<and> castObjectId sample_id3 = Some 3
   \<and> findOne (byId 1) (users sample_store) = Some (hd (users sample_store))
   \<and> findOne (byId 3) (users sample_store) = None
   \<and> fst (addFriend sample_store sample_id1 sample_id3)
       = respond 404 (Message ''Friend not found.'')
   \<and> findOne (byId 1) (users (snd (addFriend sample_store sample_id1 sample_id3)))
       = Some (addToSetFriends 3 (hd (users sample_store)))
   \<and> addFriend sample_store sample_id3 sample_id1
       = (respond 404 (Message ''User not found.''), sample_store)"
proof -
  have u1: "findOne (byId 1) (users sample_store) = Some (hd (users sample_store))"
    by (simp add: sample_store_eq findOne_def byId_def)
  have u3: "findOne (byId 3) (users sample_store) = None"
    by (simp add: sample_store_eq findOne_def byId_def)
  from addFriend_not_found [OF sample_ids(1) sample_ids(3), of sample_store]
    addFriend_not_found [OF sample_ids(3) sample_ids(1), of sample_store]
    u1 u3 sample_ids(1) sample_ids(3)
  show ?thesis by blast
qed

section \<open>Updating a thought\<close>

lemma updateThought_unfold:
  "updateThought s a inp =
     (case castObjectId a of
        None \<Rightarrow> (respond 400 (Raised CastError), s)
      | Some i \<Rightarrow>
          if \<not> validateThoughtUpdate inp then (respond 400 (Raised ValidationError), s)
          else
            (case find (thoughtById i) (thought_docs s) of
               None \<Rightarrow> (respond 404 (Message ''Thought not found''), s)
             | Some t \<Rightarrow>
                 (respond 200 (ThoughtDoc (applyThoughtUpdate inp t)),
                  s\<lparr>thought_docs := snd (findOneAndUpdate (thoughtById i)
                       (applyThoughtUpdate inp) (thought_docs s))\<rparr>)))"
  by (simp add: updateThought_def case_prod_unfold fst_findOneAndUpdate
      split: option.splits)

lemma thoughtById_applyThoughtUpdate [simp]:
  "thoughtById k (applyThoughtUpdate inp t) = thoughtById k t"
  by (simp add: thoughtById_def applyThoughtUpdate_def)

text \<open>
  C9. Updating a thought leaves the collection of users as it was, whatever the update
  sets, and leaves every thought with another identifier as it was.
\<close>

theorem updateThought_frame:
  "users (snd (updateThought s a inp)) = users s
   \<and> (\<forall>k. castObjectId a \<noteq> Some k \<longrightarrow>
         findOne (thoughtById k) (thought_docs (snd (updateThought s a inp)))
           = findOne (thoughtById k) (thought_docs s))"
proof (intro conjI allI impI)
  show "users (snd (updateThought s a inp)) = users s"
    by (simp add: updateThought_unfold split: option.splits)
next
  fix k
  assume k: "castObjectId a \<noteq> Some k"
  show "findOne (thoughtById k) (thought_docs (snd (updateThought s a inp)))
          = findOne (thoughtById k) (thought_docs s)"
  proof (cases "castObjectId a")
    case None
    then show ?thesis by (simp add: updateThought_unfold)
  next
    case (Some i)
    with k have "\<And>x. thoughtById i x \<Longrightarrow> \<not> thoughtById k x"
      by (auto simp: thoughtById_def)
    then have "find (thoughtById k) (snd (findOneAndUpdate (thoughtById i)
                 (applyThoughtUpdate inp) (thought_docs s)))
               = find (thoughtById k) (thought_docs s)"
      by (simp add: find_update_other)
    with Some show ?thesis
      by (simp add: updateThought_unfold findOne_def split: option.splits)
  qed
qed

theorem updateThought_frame_witness:
  "status (fst (updateThought sample_store_thought sample_id3
       sample_rename)) = 200
   \<and> map thought_username (thought_docs (snd (updateThought sample_store_thought sample_id3
       sample_rename))) = [''bob'']
   \<and> map thoughts (users sample_store_thought) = [[3], []]
   \<and> users (snd (updateThought sample_store_thought sample_id3
       sample_rename))
       = users sample_store_thought"
proof -
  have "status (fst (updateThought sample_store_thought sample_id3
       sample_rename)) = 200"
    by code_simp
  moreover have "map thought_username (thought_docs (snd (updateThought sample_store_thought
       sample_id3 sample_rename))) = [''bob'']"
    by code_simp
  moreover have "map thoughts (users sample_store_thought) = [[3], []]"
    by code_simp
  ultimately show ?thesis
    using updateThought_frame [of sample_store_thought sample_id3
       "sample_rename"]
    by blast
qed

section \<open>Identifiers that resolve to nothing\<close>

lemma getUser_missing:
  "castObjectId a = Some i \<Longrightarrow> findOne (byId i) (users s) = None \<Longrightarrow>
   getUser s a = (respond 404 (Message ''User not found''), s)"
  by (simp add: getUser_def)

lemma deleteUser_missing:
  "castObjectId a = Some i \<Longrightarrow> findOne (byId i) (users s) = None \<Longrightarrow>
   deleteUser s a = (respond 404 (Message ''User not found''), s)"
  by (simp add: deleteUser_def case_prod_unfold fst_findOneAndDelete findOne_def)

lemma updateUser_missing:
  "castObjectId a = Some i \<Longrightarrow> findOne (byId i) (users s) = None \<Longrightarrow>
   castableUserUpdate upd \<and> validateUserUpdate upd \<Longrightarrow>
   updateUser s a upd = (respond 404 (Message ''User not found''), s)"
  by (simp add: updateUser_def case_prod_unfold fst_findOneAndUpdate findOne_def)

lemma getThought_missing:
  "castObjectId a = Some i \<Longrightarrow> findOne (thoughtById i) (thought_docs s) = None \<Longrightarrow>
   getThought s a = (respond 404 (Message ''Thought not found''), s)"
  by (simp add: getThought_def)

lemma deleteThought_missing:
  "castObjectId a = Some i \<Longrightarrow> findOne (thoughtById i) (thought_docs s) = None \<Longrightarrow>
   deleteThought s a = (respond 404 (Message ''Thought not found''), s)"
  by (simp add: deleteThought_def case_prod_unfold fst_findOneAndDelete findOne_def)

lemma updateThought_missing:
  "castObjectId a = Some i \<Longrightarrow> findOne (thoughtById i) (thought_docs s) = None \<Longrightarrow>
   validateThoughtUpdate upd \<Longrightarrow>
   updateThought s a upd = (respond 404 (Message ''Thought not found''), s)"
  by (simp add: updateThought_def case_prod_unfold fst_findOneAndUpdate findOne_def)

lemma uncastable_parameter:
  assumes "castObjectId a = None"
  shows "getUser s a = (respond 500 (Raised CastError), s)"
    and "deleteUser s a = (respond 500 (Raised CastError), s)"
    and "updateUser s a uupd = (respond 400 (Raised CastError), s)"
    and "getThought s a = (respond 500 (Raised CastError), s)"
    and "deleteThought s a = (respond 500 (Raised CastError), s)"
    and "updateThought s a tupd = (respond 400 (Raised CastError), s)"
  using assms
  by (simp_all add: getUser_def deleteUser_def updateUser_def getThought_def
      deleteThought_def updateThought_def)

lemma updateUser_rejected:
  "castObjectId a = Some i \<Longrightarrow> \<not> (castableUserUpdate upd \<and> validateUserUpdate upd) \<Longrightarrow>
   status (fst (updateUser s a upd)) = 400 \<and> snd (updateUser s a upd) = s"
  by (auto simp: updateUser_def respond_def)

lemma updateThought_rejected:
  "castObjectId a = Some i \<Longrightarrow> \<not> validateThoughtUpdate upd \<Longrightarrow>
   updateThought s a upd = (respond 400 (Raised ValidationError), s)"
  by (simp add: updateThought_def)

text \<open>
  C7, as stated, fails. A parameter that cannot be cast to an ObjectId resolves to no
  entity, and Get answers 500; an identifier that casts and resolves to no user, sent
  with an email that does not match the pattern, makes Update answer 400.
\<close>

theorem not_found_other_status:
  "status (fst (getUser sample_store ''xyz'')) = 500
   \<and> castObjectId sample_id3 = Some 3
   \<and> findOne (byId 3) (users sample_store) = None
   \<and> status (fst (updateUser sample_store sample_id3
         \<lparr>up_username = None, up_email = Some ''nobody'', up_thoughts = Keep,
          up_friends = Keep\<rparr>)) = 400"
  by code_simp

text \<open>
  C7, amended. For a parameter that casts to an identifier resolving to no user, Get and
  Delete of a user answer 404, and Update answers 404 when its body can be cast and
  passes the validators; the same holds for thoughts. A parameter that cannot be cast
  makes Get and Delete answer 500 and Update answer 400, and an Update whose body cannot
  be cast or fails the validators answers 400 whether or not the identifier resolves.
  In all these cases the store is left as it was.
\<close>

theorem not_found_propagation:
  "(castObjectId a = None \<longrightarrow>
        getUser s a = (respond 500 (Raised CastError), s)
      \<and> deleteUser s a = (respond 500 (Raised CastError), s)
      \<and> updateUser s a uupd = (respond 400 (Raised CastError), s)
      \<and> getThought s a = (respond 500 (Raised CastError), s)
      \<and> deleteThought s a = (respond 500 (Raised CastError), s)
      \<and> updateThought s a tupd = (respond 400 (Raised CastError), s))
   \<and> (\<forall>i. castObjectId a = Some i \<longrightarrow>
        (\<not> (castableUserUpdate uupd \<and> validateUserUpdate uupd) \<longrightarrow>
           status (fst (updateUser s a uupd)) = 400 \<and> snd (updateUser s a uupd) = s)
      \<and> (\<not> validateThoughtUpdate tupd \<longrightarrow>
           updateThought s a tupd = (respond 400 (Raised ValidationError), s))
      \<and> (findOne (byId i) (users s) = None \<longrightarrow>
            getUser s a = (respond 404 (Message ''User not found''), s)
          \<and> deleteUser s a = (respond 404 (Message ''User not found''), s)
          \<and> (castableUserUpdate uupd \<and> validateUserUpdate uupd \<longrightarrow>
               updateUser s a uupd = (respond 404 (Message ''User not found''), s)))
      \<and> (findOne (thoughtById i) (thought_docs s) = None \<longrightarrow>
            getThought s a = (respond 404 (Message ''Thought not found''), s)
          \<and> deleteThought s a = (respond 404 (Message ''Thought not found''), s)
          \<and> (validateThoughtUpdate tupd \<longrightarrow>
               updateThought s a tupd = (respond 404 (Message ''Thought not found''), s))))"
proof (intro conjI allI impI)
  fix i
  assume a: "castObjectId a = Some i"
  {
    assume "\<not> (castableUserUpdate uupd \<and> validateUserUpdate uupd)"
    with a show "status (fst (updateUser s a uupd)) = 400" "snd (updateUser s a uupd) = s"
      using updateUser_rejected by blast+
  }
  {
    assume "\<not> validateThoughtUpdate tupd"
    with a show "updateThought s a tupd = (respond 400 (Raised ValidationError), s)"
      by (rule updateThought_rejected)
  }
  {
    assume u: "findOne (byId i) (users s) = None"
    from a u show "getUser s a = (respond 404 (Message ''User not found''), s)"
      by (rule getUser_missing)
    from a u show "deleteUser s a = (respond 404 (Message ''User not found''), s)"
      by (rule deleteUser_missing)
    assume "castableUserUpdate uupd \<and> validateUserUpdate uupd"
    with a u show "updateUser s a uupd = (respond 404 (Message ''User not found''), s)"
      by (rule updateUser_missing)
  }
  {
    assume t: "findOne (thoughtById i) (thought_docs s) = None"
    from a t show "getThought s a = (respond 404 (Message ''Thought not found''), s)"
      by (rule getThought_missing)
    from a t show "deleteThought s a = (respond 404 (Message ''Thought not found''), s)"
      by (rule deleteThought_missing)
    assume "validateThoughtUpdate tupd"
    with a t show "updateThought s a tupd = (respond 404 (Message ''Thought not found''), s)"
      by (rule updateThought_missing)
  }
qed (simp_all add: uncastable_parameter)

theorem not_found_propagation_witness:
  "castObjectId sample_id3 = Some 3
   \<and> findOne (byId 3) (users sample_store) = None
   \<and> findOne (thoughtById 3) (thought_docs sample_store) = None
   \<and> castableUserUpdate \<lparr>up_username = Some ''carol'', up_email = None, up_thoughts = Keep,
        up_friends = Keep\<rparr>
   \<and> validateUserUpdate \<lparr>up_username = Some ''carol'', up_email = None, up_thoughts = Keep,
        up_friends = Keep\<rparr>
   \<and> validateThoughtUpdate \<lparr>up_thoughtText = Some ''hello'', up_thought_username = None\<rparr>
   \<and> status (fst (getUser sample_store sample_id3)) = 404
   \<and> status (fst (deleteUser sample_store sample_id3)) = 404
   \<and> status (fst (updateUser sample_store sample_id3
         \<lparr>up_username = Some ''carol'', up_email = None, up_thoughts = Keep,
          up_friends = Keep\<rparr>)) = 404
   \<and> status (fst (getThought sample_store sample_id3)) = 404
   \<and> status (fst (deleteThought sample_store sample_id3)) = 404
   \<and> status (fst (updateThought sample_store sample_id3
         \<lparr>up_thoughtText = Some ''hello'', up_thought_username = None\<rparr>)) = 404
   \<and> castObjectId ''xyz'' = None
   \<and> status (fst (getUser sample_store ''xyz'')) = 500
   \<and> status (fst (updateThought sample_store ''xyz''
         \<lparr>up_thoughtText = Some ''hello'', up_thought_username = None\<rparr>)) = 400"
proof -
  have u3: "findOne (byId 3) (users sample_store) = None"
    by (simp add: sample_store_eq findOne_def byId_def)
  have t3: "findOne (thoughtById 3) (thought_docs sample_store) = None"
    by (simp add: sample_store_eq findOne_def)
  have cu: "castableUserUpdate \<lparr>up_username = Some ''carol'', up_email = None,
      up_thoughts = Keep, up_friends = Keep\<rparr>"
    by (simp add: castableUserUpdate_def)
  have vu: "validateUserUpdate \<lparr>up_username = Some ''carol'', up_email = None,
      up_thoughts = Keep, up_friends = Keep\<rparr>"
    by (simp add: validateUserUpdate_def validUsername_def required_def trim_def isSpace_def)
  have vt: "validateThoughtUpdate \<lparr>up_thoughtText = Some ''hello'', up_thought_username = None\<rparr>"
    by (simp add: validateThoughtUpdate_def validThoughtText_def required_def)
  have x: "castObjectId ''xyz'' = None"
    by (simp add: castObjectId_def)
  note r = not_found_propagation [of sample_id3 sample_store
      "\<lparr>up_username = Some ''carol'', up_email = None, up_thoughts = Keep, up_friends = Keep\<rparr>"
      "\<lparr>up_thoughtText = Some ''hello'', up_thought_username = None\<rparr>"]
  note q = not_found_propagation [of "''xyz''" sample_store
      "\<lparr>up_username = Some ''carol'', up_email = None, up_thoughts = Keep, up_friends = Keep\<rparr>"
      "\<lparr>up_thoughtText = Some ''hello'', up_thought_username = None\<rparr>"]
  from r q u3 t3 cu vu vt x sample_ids(3) show ?thesis
    by (simp add: respond_def)
qed

section \<open>What every reachable store satisfies\<close>

lemma set_update_subset:
  "set (snd (findOneAndUpdate P f xs)) \<subseteq> set xs \<union> f ` set xs"
  by (induction xs) (auto split: prod.splits)

lemma set_delete_subset: "set (snd (findOneAndDelete P xs)) \<subseteq> set xs"
  by (induction xs) (auto split: prod.splits)

lemma distinct_map_delete:
  "distinct (map g xs) \<Longrightarrow> distinct (map g (snd (findOneAndDelete P xs)))"
proof (induction xs)
  case Nil
  show ?case by simp
next
  case (Cons y ys)
  have "g y \<notin> g ` set (snd (findOneAndDelete P ys))"
    using Cons.prems set_delete_subset [of P ys] by auto
  with Cons show ?case by (simp add: case_prod_unfold)
qed

lemma list_all_update:
  assumes "list_all Q xs" and "\<And>x. Q x \<Longrightarrow> Q (f x)"
  shows "list_all Q (snd (findOneAndUpdate P f xs))"
  using assms set_update_subset [of P f xs] by (auto simp: list_all_iff)

lemma list_all_delete:
  "list_all Q xs \<Longrightarrow> list_all Q (snd (findOneAndDelete P xs))"
  using set_delete_subset [of P xs] by (auto simp: list_all_iff)

lemma distinct_map_update:
  assumes "distinct (map g xs)"
    and "\<And>x. find P xs = Some x \<Longrightarrow> g (f x) \<notin> g ` set (snd (findOneAndDelete P xs))"
  shows "distinct (map g (snd (findOneAndUpdate P f xs)))"
  using assms
proof (induction xs)
  case Nil
  show ?case by simp
next
  case (Cons y ys)
  show ?case
  proof (cases "P y")
    case True
    with Cons.prems(2) [of y] have "g (f y) \<notin> g ` set ys" by simp
    with True Cons.prems(1) show ?thesis by simp
  next
    case False
    have fresh: "g (f x) \<notin> g ` set (snd (findOneAndDelete P ys)) \<and> g (f x) \<noteq> g y"
      if "find P ys = Some x" for x
      using Cons.prems(2) [of x] that False by (auto simp: case_prod_unfold)
    then have ih: "distinct (map g (snd (findOneAndUpdate P f ys)))"
      using Cons.IH Cons.prems(1) by simp
    have "g y \<notin> g ` set (snd (findOneAndUpdate P f ys))"
    proof (cases "find P ys")
      case None
      then show ?thesis using Cons.prems(1) by (simp add: update_no_match)
    next
      case (Some x)
      have "set (snd (findOneAndUpdate P f ys)) \<subseteq> insert (f x) (set ys)"
        using Some by (induction ys) (auto split: prod.splits if_splits)
      with fresh [OF Some] Cons.prems(1) show ?thesis by auto
    qed
    with False ih show ?thesis by (simp add: case_prod_unfold)
  qed
qed

lemma dropWhile_self: "xs = [] \<or> \<not> P (hd xs) \<Longrightarrow> dropWhile P xs = xs"
  by (cases xs) auto

lemma trim_idem: "trim (trim s) = trim s"
proof -
  define a where "a = dropWhile isSpace s"
  define c where "c = dropWhile isSpace (rev a)"
  have t: "trim s = rev c" by (simp add: trim_def a_def c_def)
  have a: "a = [] \<or> \<not> isSpace (hd a)"
    unfolding a_def using hd_dropWhile [of isSpace s] by blast
  have "rev a = takeWhile isSpace (rev a) @ c" by (simp add: c_def)
  then have "rev (rev a) = rev (takeWhile isSpace (rev a) @ c)" by simp
  then have split: "a = rev c @ rev (takeWhile isSpace (rev a))" by simp
  then have "rev c = [] \<or> hd (rev c) = hd a" by (metis hd_append2)
  moreover from split have "a = [] \<Longrightarrow> rev c = []" by simp
  ultimately have "rev c = [] \<or> \<not> isSpace (hd (rev c))" using a by metis
  then have "dropWhile isSpace (rev c) = rev c" by (rule dropWhile_self)
  moreover have "dropWhile isSpace c = c" by (simp add: c_def)
  ultimately have "trim (rev c) = rev c" by (simp add: trim_def)
  with t show ?thesis by simp
qed

lemma trim_Nil: "trim [] = []"
  by (simp add: trim_def)

lemma usersInv_mono: "usersInv n us \<Longrightarrow> n \<le> m \<Longrightarrow> usersInv m us"
  by (fastforce simp: usersInv_def list_all_iff)

lemma thoughtsInv_mono: "thoughtsInv n ts \<Longrightarrow> n \<le> m \<Longrightarrow> thoughtsInv m ts"
  by (fastforce simp: thoughtsInv_def list_all_iff)

lemma usersInv_update:
  assumes inv: "usersInv n us"
    and id: "\<And>x. user_id (f x) = user_id x"
    and name: "\<And>x. username (f x) = username x"
    and mail: "\<And>x. email (f x) = email x"
  shows "usersInv n (snd (findOneAndUpdate P f us))"
proof -
  have "map user_id (snd (findOneAndUpdate P f us)) = map user_id us"
    by (rule map_update_key) (rule id)
  moreover have "map username (snd (findOneAndUpdate P f us)) = map username us"
    by (rule map_update_key) (rule name)
  moreover have "map email (snd (findOneAndUpdate P f us)) = map email us"
    by (rule map_update_key) (rule mail)
  moreover have "list_all (\<lambda>u. trim (username u) = username u) (snd (findOneAndUpdate P f us))"
    using inv by (intro list_all_update) (simp_all add: usersInv_def name)
  moreover have "list_all (\<lambda>u. user_id u < n) (snd (findOneAndUpdate P f us))"
    using inv by (intro list_all_update) (simp_all add: usersInv_def id)
  ultimately show ?thesis using inv by (simp add: usersInv_def)
qed

lemma usersInv_delete: "usersInv n us \<Longrightarrow> usersInv n (snd (findOneAndDelete P us))"
  by (simp add: usersInv_def distinct_map_delete list_all_delete)

lemma thoughtsInv_delete: "thoughtsInv n ts \<Longrightarrow> thoughtsInv n (snd (findOneAndDelete P ts))"
  by (simp add: thoughtsInv_def distinct_map_delete list_all_delete)

lemma thoughtsInv_deleteMany: "thoughtsInv n ts \<Longrightarrow> thoughtsInv n (deleteMany P ts)"
  by (simp add: thoughtsInv_def deleteMany_def distinct_map_filter list_all_iff)

lemma thoughtsInv_update:
  assumes "thoughtsInv n ts" and id: "\<And>x. thought_id (f x) = thought_id x"
  shows "thoughtsInv n (snd (findOneAndUpdate P f ts))"
proof -
  have "map thought_id (snd (findOneAndUpdate P f ts)) = map thought_id ts"
    by (rule map_update_key) (rule id)
  moreover have "list_all (\<lambda>t. thought_id t < n) (snd (findOneAndUpdate P f ts))"
    using assms(1) by (intro list_all_update) (simp_all add: thoughtsInv_def id)
  ultimately show ?thesis using assms(1) by (simp add: thoughtsInv_def)
qed

lemma storeInv_getters:
  "snd (getUsers s) = s" "snd (getUser s a) = s" "snd (getThoughts s) = s"
  "snd (getThought s a) = s"
  by (simp_all add: getUsers_def getUser_def getThoughts_def getThought_def
      split: option.splits)

lemma storeInv_createUser: "storeInv s \<Longrightarrow> storeInv (snd (createUser s inp))"
proof -
  assume inv: "storeInv s"
  show ?thesis
  proof (cases "\<exists>u. castUser s inp = Some u \<and> validateUser inp
      \<and> \<not> list_ex (\<lambda>v. user_id v = user_id u \<or> username v = username u \<or> email v = email u)
            (users s)")
    case False
    with inv show ?thesis by (auto simp: createUser_def split: option.splits)
  next
    case True
    then obtain u where u: "castUser s inp = Some u" and v: "validateUser inp"
      and fresh: "\<forall>v\<in>set (users s). user_id v \<noteq> user_id u
        \<and> username v \<noteq> username u \<and> email v \<noteq> email u"
      by (auto simp: list_ex_iff)
    define n where "n = max (nextId s) (Suc (user_id u))"
    from u v fresh have res: "snd (createUser s inp) = s\<lparr>users := users s @ [u], nextId := n\<rparr>"
      by (auto simp: createUser_def n_def list_ex_iff)
    from u have "trim (username u) = username u"
      by (auto simp: castUser_def trim_idem trim_Nil split: option.splits)
    moreover from inv have "usersInv n (users s)"
      by (auto simp: storeInv_def n_def intro: usersInv_mono)
    ultimately have "usersInv n (users s @ [u])"
      using fresh by (auto simp: usersInv_def n_def)
    moreover from inv have "thoughtsInv n (thought_docs s)"
      by (auto simp: storeInv_def n_def intro: thoughtsInv_mono)
    ultimately show ?thesis using res by (simp add: storeInv_def)
  qed
qed

lemma find_in_delete:
  "v \<in> set (snd (findOneAndDelete P xs)) \<Longrightarrow> v \<in> set xs"
  using set_delete_subset [of P xs] by auto

lemma storeInv_updateUser: "storeInv s \<Longrightarrow> storeInv (snd (updateUser s a inp))"
proof -
  assume inv: "storeInv s"
  show ?thesis
  proof (cases "castObjectId a")
    case None
    with inv show ?thesis by (simp add: updateUser_def)
  next
    case (Some i)
    define us where "us = snd (findOneAndUpdate (byId i) (applyUserUpdate inp) (users s))"
    define others where "others = snd (findOneAndDelete (byId i) (users s))"
    show ?thesis
    proof (cases "castableUserUpdate inp \<and> validateUserUpdate inp \<and> (\<exists>u. find (byId i) (users s) = Some u
        \<and> \<not> list_ex (\<lambda>v. username v = username (applyUserUpdate inp u)
                          \<or> email v = email (applyUserUpdate inp u)) others)")
      case False
      with inv Some show ?thesis
        by (auto simp: updateUser_def case_prod_unfold fst_findOneAndUpdate others_def
            split: option.splits)
    next
      case True
      then obtain u where u: "find (byId i) (users s) = Some u"
        and nodup: "\<forall>v\<in>set others. username v \<noteq> username (applyUserUpdate inp u)
                      \<and> email v \<noteq> email (applyUserUpdate inp u)"
        by (auto simp: list_ex_iff)
      from True Some u have res: "snd (updateUser s a inp) = s\<lparr>users := us\<rparr>"
        by (auto simp: updateUser_def case_prod_unfold fst_findOneAndUpdate others_def us_def)
      from inv have ui: "usersInv (nextId s) (users s)" by (simp add: storeInv_def)
      have ids: "map user_id us = map user_id (users s)"
        unfolding us_def by (rule map_update_key) (simp add: applyUserUpdate_def)
      have names: "distinct (map username us)"
        unfolding us_def
      proof (rule distinct_map_update)
        show "distinct (map username (users s))" using ui by (simp add: usersInv_def)
        fix x assume "find (byId i) (users s) = Some x"
        with u nodup show "username (applyUserUpdate inp x)
            \<notin> username ` set (snd (findOneAndDelete (byId i) (users s)))"
          by (auto simp: others_def)
      qed
      have mails: "distinct (map email us)"
        unfolding us_def
      proof (rule distinct_map_update)
        show "distinct (map email (users s))" using ui by (simp add: usersInv_def)
        fix x assume "find (byId i) (users s) = Some x"
        with u nodup show "email (applyUserUpdate inp x)
            \<notin> email ` set (snd (findOneAndDelete (byId i) (users s)))"
          by (auto simp: others_def)
      qed
      have trimmed: "list_all (\<lambda>u. trim (username u) = username u) us"
        unfolding us_def using ui
        by (intro list_all_update)
           (auto simp: usersInv_def applyUserUpdate_def trim_idem split: option.splits)
      have bounds: "list_all (\<lambda>u. user_id u < nextId s) us"
        unfolding us_def using ui
        by (intro list_all_update) (auto simp: usersInv_def applyUserUpdate_def)
      from ui ids names mails trimmed bounds have "usersInv (nextId s) us"
        by (simp add: usersInv_def)
      with inv res show ?thesis by (simp add: storeInv_def)
    qed
  qed
qed

lemma storeInv_deleteUser: "storeInv s \<Longrightarrow> storeInv (snd (deleteUser s a))"
  by (auto simp: deleteUser_def storeInv_def case_prod_unfold usersInv_delete
      thoughtsInv_deleteMany split: option.splits)

lemma storeInv_addFriend: "storeInv s \<Longrightarrow> storeInv (snd (addFriend s a b))"
  by (auto simp: addFriend_unfold storeInv_def Let_def addToSetFriends_def
      intro!: usersInv_update split: option.splits)

lemma storeInv_removeFriend: "storeInv s \<Longrightarrow> storeInv (snd (removeFriend s a b))"
  by (auto simp: removeFriend_unfold storeInv_def pullFriends_def
      intro!: usersInv_update split: option.splits)

lemma storeInv_createThought: "storeInv s \<Longrightarrow> storeInv (snd (createThought s now inp))"
proof -
  assume inv: "storeInv s"
  show ?thesis
  proof (cases "\<exists>t. castThought s now inp = Some t \<and> validateThought inp
      \<and> \<not> list_ex (\<lambda>x. thought_id x = thought_id t) (thought_docs s)")
    case False
    with inv show ?thesis by (auto simp: createThought_def split: option.splits)
  next
    case True
    then obtain t where t: "castThought s now inp = Some t" and v: "validateThought inp"
      and fresh: "\<forall>x\<in>set (thought_docs s). thought_id x \<noteq> thought_id t"
      by (auto simp: list_ex_iff)
    define n where "n = max (nextId s) (Suc (thought_id t))"
    define us where "us = snd (findOneAndUpdate (byUsername (thought_username t))
        (pushThoughts (thought_id t)) (users s))"
    from t v fresh have res: "snd (createThought s now inp)
        = s\<lparr>users := us, thought_docs := thought_docs s @ [t], nextId := n\<rparr>"
      by (auto simp: createThought_def n_def us_def list_ex_iff)
    from inv have "usersInv n (users s)"
      by (auto simp: storeInv_def n_def intro: usersInv_mono)
    then have "usersInv n us"
      unfolding us_def by (rule usersInv_update) (simp_all add: pushThoughts_def)
    moreover from inv have "thoughtsInv n (thought_docs s)"
      by (auto simp: storeInv_def n_def intro: thoughtsInv_mono)
    with fresh have "thoughtsInv n (thought_docs s @ [t])"
      by (auto simp: thoughtsInv_def n_def)
    ultimately show ?thesis using res by (simp add: storeInv_def)
  qed
qed

lemma storeInv_updateThought: "storeInv s \<Longrightarrow> storeInv (snd (updateThought s a inp))"
  by (auto simp: updateThought_unfold storeInv_def applyThoughtUpdate_def
      intro!: thoughtsInv_update split: option.splits)

lemma storeInv_deleteThought: "storeInv s \<Longrightarrow> storeInv (snd (deleteThought s a))"
  by (auto simp: deleteThought_def storeInv_def case_prod_unfold thoughtsInv_delete
      pullThoughts_def
      intro!: usersInv_update split: option.splits)

lemma storeInv_step: "storeInv s \<Longrightarrow> storeInv (snd (step s r))"
  by (cases r)
     (simp_all add: storeInv_getters storeInv_createUser storeInv_updateUser
        storeInv_deleteUser storeInv_addFriend storeInv_removeFriend
        storeInv_createThought storeInv_updateThought storeInv_deleteThought)

lemma storeInv_init: "storeInv init"
  by (simp add: storeInv_def usersInv_def thoughtsInv_def init_def)

lemma reachable_storeInv: "reachable s \<Longrightarrow> storeInv s"
  by (induction rule: reachable.induct) (simp_all add: storeInv_init storeInv_step)

lemma reachable_run: "reachable s \<Longrightarrow> reachable (run s rs)"
  by (induction rs arbitrary: s) (simp_all add: reachable_step)

lemma reachable_sample_store: "reachable sample_store"
  unfolding sample_store_def by (rule reachable_run) (rule reachable_init)

lemma reachable_sample_store_thought: "reachable sample_store_thought"
  unfolding sample_store_thought_def by (rule reachable_run) (rule reachable_sample_store)

section \<open>Deleting a user\<close>

lemma find_distinct_key:
  "distinct (map g xs) \<Longrightarrow> x \<in> set xs \<Longrightarrow> find (\<lambda>y. g y = g x) xs = Some x"
  by (induction xs) force+

text \<open>
  C4. In a reachable store, Delete of a user that the identifier resolves to answers 200
  and afterwards no thought of the store carries the user's username; Get on the
  identifier of any thought that carried it answers 404.
\<close>

theorem delete_user_cascade:
  assumes r: "reachable s" and a: "castObjectId a = Some i"
    and u: "findOne (byId i) (users s) = Some u"
  shows "status (fst (deleteUser s a)) = 200
       \<and> list_all (\<lambda>t. thought_username t \<noteq> username u) (thought_docs (snd (deleteUser s a)))
       \<and> (\<forall>t\<in>set (thought_docs s). thought_username t = username u \<longrightarrow>
            (\<forall>b. castObjectId b = Some (thought_id t) \<longrightarrow>
               getThought (snd (deleteUser s a)) b
                 = (respond 404 (Message ''Thought not found''), snd (deleteUser s a))))"
proof -
  define ts where "ts = deleteMany (\<lambda>t. thought_username t = username u) (thought_docs s)"
  have res: "deleteUser s a = (respond 200 (Message ''User deleted''),
      s\<lparr>users := snd (findOneAndDelete (byId i) (users s)), thought_docs := ts\<rparr>)"
    using a u by (simp add: deleteUser_def case_prod_unfold fst_findOneAndDelete findOne_def
        ts_def)
  from r have d: "distinct (map thought_id (thought_docs s))"
    by (auto dest: reachable_storeInv simp: storeInv_def thoughtsInv_def)
  have gone: "find (thoughtById (thought_id t)) ts = None"
    if t: "t \<in> set (thought_docs s)" and n: "thought_username t = username u" for t
  proof -
    have "x = t" if "x \<in> set (thought_docs s)" "thought_id x = thought_id t" for x
      using d t that by (meson distinct_map inj_onD)
    with n show ?thesis
      by (auto simp: find_None_iff ts_def deleteMany_def thoughtById_def)
  qed
  show ?thesis
  proof (intro conjI ballI impI allI)
    show "status (fst (deleteUser s a)) = 200" using res by (simp add: respond_def)
    show "list_all (\<lambda>t. thought_username t \<noteq> username u) (thought_docs (snd (deleteUser s a)))"
      using res by (simp add: ts_def deleteMany_def list_all_iff)
  next
    fix t b
    assume t: "t \<in> set (thought_docs s)" and n: "thought_username t = username u"
      and b: "castObjectId b = Some (thought_id t)"
    from t n have "find (thoughtById (thought_id t)) ts = None" by (rule gone)
    with b res show "getThought (snd (deleteUser s a)) b
        = (respond 404 (Message ''Thought not found''), snd (deleteUser s a))"
      by (simp add: getThought_def findOne_def)
  qed
qed

theorem delete_user_cascade_witness:
  "reachable sample_store_thought \<and> castObjectId sample_id1 = Some 1
   \<and> map username (users sample_store_thought) = [''alice'', ''bob'']
   \<and> map thought_username (thought_docs sample_store_thought) = [''alice'']
   \<and> status (fst (getThought sample_store_thought sample_id3)) = 200
   \<and> status (fst (deleteUser sample_store_thought sample_id1)) = 200
   \<and> status (fst (getThought (snd (deleteUser sample_store_thought sample_id1)) sample_id3)) = 404"
proof -
  have u: "findOne (byId 1) (users sample_store_thought) = Some (hd (users sample_store_thought))"
    by (simp add: sample_store_thought_eq findOne_def byId_def)
  have t: "hd (thought_docs sample_store_thought) \<in> set (thought_docs sample_store_thought)"
    and n: "thought_username (hd (thought_docs sample_store_thought))
              = username (hd (users sample_store_thought))"
    and b: "castObjectId sample_id3 = Some (thought_id (hd (thought_docs sample_store_thought)))"
    by (simp_all add: sample_store_thought_eq sample_ids)
  note c = delete_user_cascade [OF reachable_sample_store_thought sample_ids(1) u]
  from c t n b have "getThought (snd (deleteUser sample_store_thought sample_id1)) sample_id3
      = (respond 404 (Message ''Thought not found''),
         snd (deleteUser sample_store_thought sample_id1))"
    by blast
  moreover have "status (fst (getThought sample_store_thought sample_id3)) = 200"
    by (simp add: getThought_def sample_ids sample_store_thought_eq findOne_def
        thoughtById_def respond_def)
  moreover have "map username (users sample_store_thought) = [''alice'', ''bob'']"
    "map thought_username (thought_docs sample_store_thought) = [''alice'']"
    by (simp_all add: sample_store_thought_eq)
  ultimately show ?thesis
    using c reachable_sample_store_thought sample_ids(1) by (simp add: respond_def)
qed

section \<open>Creating a thought\<close>

lemma find_snoc:
  "find P (xs @ [x]) = (case find P xs of None \<Rightarrow> (if P x then Some x else None)
                        | Some y \<Rightarrow> Some y)"
  by (induction xs) auto

lemma find_update_key:
  assumes "distinct (map g xs)" and "find P xs = Some x" and "g (f x) = g x"
  shows "find (\<lambda>y. g y = g x) (snd (findOneAndUpdate P f xs)) = Some (f x)"
  using assms
proof (induction xs)
  case Nil
  then show ?case by simp
next
  case (Cons y ys)
  show ?case
  proof (cases "P y")
    case True
    with Cons.prems show ?thesis by simp
  next
    case False
    with Cons.prems have "find P ys = Some x" by simp
    then have "x \<in> set ys" by (auto simp: find_Some_iff)
    with Cons.prems(1) have "g y \<noteq> g x" by auto
    with False Cons show ?thesis by (simp add: case_prod_unfold)
  qed
qed

text \<open>
  C5, as stated, fails. In the sample store with one thought of alice, the thought is
  given to bob by an update and then deleted, which pulls its identifier from the
  thoughts of bob and leaves it in the thoughts of alice. A Create of a thought of alice
  whose body carries that identifier answers 200, and the thoughts of alice hold the
  identifier twice.
\<close>

theorem create_thought_listed_twice:
  "reachable (run sample_store_thought
       [UpdateThought sample_id3 sample_rename, DeleteThought sample_id3])
   \<and> map username (users (run sample_store_thought
       [UpdateThought sample_id3 sample_rename, DeleteThought sample_id3])) = [''alice'', ''bob'']
   \<and> map thoughts (users (run sample_store_thought
       [UpdateThought sample_id3 sample_rename, DeleteThought sample_id3])) = [[3], []]
   \<and> in_thought_username sample_thought_again = Some ''alice''
   \<and> status (fst (createThought (run sample_store_thought
       [UpdateThought sample_id3 sample_rename, DeleteThought sample_id3])
       9 sample_thought_again)) = 200
   \<and> body (fst (createThought (run sample_store_thought
       [UpdateThought sample_id3 sample_rename, DeleteThought sample_id3])
       9 sample_thought_again))
       = ThoughtDoc \<lparr>thought_id = 3, thoughtText = ''hi again'', createdAt = 9,
           thought_username = ''alice'', reactions = []\<rparr>
   \<and> map thoughts (users (snd (createThought (run sample_store_thought
       [UpdateThought sample_id3 sample_rename, DeleteThought sample_id3])
       9 sample_thought_again))) = [[3, 3], []]
   \<and> count_list [3, 3] (3 :: oid) = 2"
proof -
  have "reachable (run sample_store_thought
       [UpdateThought sample_id3 sample_rename, DeleteThought sample_id3])"
    by (rule reachable_run) (rule reachable_sample_store_thought)
  moreover have "map username (users (run sample_store_thought
       [UpdateThought sample_id3 sample_rename, DeleteThought sample_id3])) = [''alice'', ''bob'']"
    by code_simp
  moreover have "map thoughts (users (run sample_store_thought
       [UpdateThought sample_id3 sample_rename, DeleteThought sample_id3])) = [[3], []]"
    by code_simp
  moreover have "in_thought_username sample_thought_again = Some ''alice''"
    by (simp add: sample_thought_again_def)
  moreover have "status (fst (createThought (run sample_store_thought
       [UpdateThought sample_id3 sample_rename, DeleteThought sample_id3])
       9 sample_thought_again)) = 200"
    by code_simp
  moreover have "body (fst (createThought (run sample_store_thought
       [UpdateThought sample_id3 sample_rename, DeleteThought sample_id3])
       9 sample_thought_again))
       = ThoughtDoc \<lparr>thought_id = 3, thoughtText = ''hi again'', createdAt = 9,
           thought_username = ''alice'', reactions = []\<rparr>"
    by code_simp
  moreover have "map thoughts (users (snd (createThought (run sample_store_thought
       [UpdateThought sample_id3 sample_rename, DeleteThought sample_id3])
       9 sample_thought_again))) = [[3, 3], []]"
    by code_simp
  moreover have "count_list [3, 3] (3 :: oid) = 2"
    by simp
  ultimately show ?thesis by blast
qed

text \<open>
  C5, amended. In a reachable store, when Create of a thought whose username is the
  username of a user of the store answers 200, the reply is the new thought and its
  identifier has been appended once to the thoughts of that user: the number of its
  occurrences there has grown by one, and it is exactly one when the thoughts of the
  user did not hold the identifier before.
\<close>

theorem create_thought_append:
  assumes r: "reachable s" and u: "u \<in> set (users s)"
    and name: "in_thought_username inp = Some (username u)"
    and ok: "status (fst (createThought s now inp)) = 200"
  shows "\<exists>t u'. body (fst (createThought s now inp)) = ThoughtDoc t
           \<and> thought_username t = username u
           \<and> findOne (thoughtById (thought_id t))
                (thought_docs (snd (createThought s now inp))) = Some t
           \<and> findOne (byId (user_id u)) (users (snd (createThought s now inp))) = Some u'
           \<and> thoughts u' = thoughts u @ [thought_id t]
           \<and> count_list (thoughts u') (thought_id t)
               = Suc (count_list (thoughts u) (thought_id t))
           \<and> (thought_id t \<notin> set (thoughts u) \<longrightarrow>
                 count_list (thoughts u') (thought_id t) = 1)"
proof -
  from ok obtain t where t: "castThought s now inp = Some t"
    and fresh: "\<not> list_ex (\<lambda>x. thought_id x = thought_id t) (thought_docs s)"
    by (auto simp: createThought_def respond_def split: option.splits if_splits)
  define n where "n = thought_id t"
  define us where "us = snd (findOneAndUpdate (byUsername (thought_username t))
      (pushThoughts n) (users s))"
  from ok t fresh have res: "createThought s now inp = (respond 200 (ThoughtDoc t),
      s\<lparr>users := us, thought_docs := thought_docs s @ [t],
        nextId := max (nextId s) (Suc n)\<rparr>)"
    by (auto simp: createThought_def respond_def n_def us_def split: if_splits)
  from t name have tn: "thought_username t = username u"
    by (auto simp: castThought_def split: option.splits)
  from r have inv: "usersInv (nextId s) (users s)"
    by (auto dest: reachable_storeInv simp: storeInv_def)
  from inv u have trimmed: "trim (username u) = username u"
    by (auto simp: usersInv_def list_all_iff)
  have by_name: "byUsername (username u) = (\<lambda>y. username y = username u)"
    by (simp add: byUsername_def trimmed fun_eq_iff)
  from inv u have found: "find (byUsername (username u)) (users s) = Some u"
    unfolding by_name by (intro find_distinct_key) (simp_all add: usersInv_def)
  have "find (\<lambda>y. user_id y = user_id u) us = Some (pushThoughts n u)"
    unfolding us_def tn using inv found
    by (intro find_update_key) (simp_all add: usersInv_def pushThoughts_def)
  then have fu: "findOne (byId (user_id u)) us = Some (pushThoughts n u)"
    by (simp add: findOne_def byId_def [abs_def])
  have app: "thoughts (pushThoughts n u) = thoughts u @ [n]"
    by (simp add: pushThoughts_def push_def)
  from fresh have "find (thoughtById n) (thought_docs s) = None"
    by (auto simp: list_ex_iff find_None_iff thoughtById_def n_def)
  then have ft: "findOne (thoughtById n) (thought_docs s @ [t]) = Some t"
    by (simp add: findOne_def find_snoc thoughtById_def n_def)
  from res fu app ft tn show ?thesis
    by (simp add: respond_def n_def count_list_0_iff)
qed

theorem create_thought_append_witness:
  "reachable sample_store_thought
   \<and> hd (users sample_store_thought) \<in> set (users sample_store_thought)
   \<and> in_thought_username sample_thought = Some (username (hd (users sample_store_thought)))
   \<and> status (fst (createThought sample_store_thought 9 sample_thought)) = 200
   \<and> map thoughts (users sample_store_thought) = [[3], []]
   \<and> (\<exists>t u'. body (fst (createThought sample_store_thought 9 sample_thought)) = ThoughtDoc t
          \<and> findOne (byId 1) (users (snd (createThought sample_store_thought 9 sample_thought)))
               = Some u'
          \<and> thoughts u' = thoughts (hd (users sample_store_thought)) @ [thought_id t]
          \<and> count_list (thoughts u') (thought_id t)
              = Suc (count_list (thoughts (hd (users sample_store_thought))) (thought_id t)))"
proof -
  have u: "hd (users sample_store_thought) \<in> set (users sample_store_thought)"
    by (simp add: sample_store_thought_eq)
  have name: "in_thought_username sample_thought
      = Some (username (hd (users sample_store_thought)))"
    by (simp add: sample_store_thought_eq sample_thought_def)
  have ok: "status (fst (createThought sample_store_thought 9 sample_thought)) = 200"
    by code_simp
  have i: "user_id (hd (users sample_store_thought)) = 1"
    by (simp add: sample_store_thought_eq)
  have th: "map thoughts (users sample_store_thought) = [[3], []]"
    by (simp add: sample_store_thought_eq)
  from create_thought_append [OF reachable_sample_store_thought u name ok]
    reachable_sample_store_thought u name ok th
  show ?thesis unfolding i by blast
qed

section \<open>Unique usernames and emails\<close>

text \<open>
  C6. In a reachable store no two users share a username or an email, and Create of a
  user whose username or email is that of a user of the store answers 400 and leaves
  the store as it was.
\<close>

theorem user_uniqueness:
  assumes r: "reachable s"
  shows "distinct (map username (users s)) \<and> distinct (map email (users s))
       \<and> (\<forall>inp. (\<exists>u\<in>set (users s). in_username inp = Some (username u)
                                      \<or> in_email inp = Some (email u)) \<longrightarrow>
            status (fst (createUser s inp)) = 400 \<and> snd (createUser s inp) = s)"
proof -
  from r have inv: "usersInv (nextId s) (users s)"
    by (auto dest: reachable_storeInv simp: storeInv_def)
  have dup: "status (fst (createUser s inp)) = 400 \<and> snd (createUser s inp) = s"
    if u: "u \<in> set (users s)"
      and taken: "in_username inp = Some (username u) \<or> in_email inp = Some (email u)"
    for inp u
  proof (cases "castUser s inp")
    case None
    then show ?thesis by (simp add: createUser_def respond_def)
  next
    case (Some w)
    show ?thesis
    proof (cases "validateUser inp")
      case False
      with Some show ?thesis by (simp add: createUser_def respond_def)
    next
      case True
      from inv u have "trim (username u) = username u"
        by (auto simp: usersInv_def list_all_iff)
      with taken Some have "username u = username w \<or> email u = email w"
        by (auto simp: castUser_def split: option.splits)
      with u have "list_ex (\<lambda>v. user_id v = user_id w \<or> username v = username w
          \<or> email v = email w) (users s)"
        by (auto simp: list_ex_iff)
      with True Some show ?thesis by (simp add: createUser_def respond_def)
    qed
  qed
  from inv have "distinct (map username (users s))" "distinct (map email (users s))"
    by (simp_all add: usersInv_def)
  with dup show ?thesis by blast
qed

theorem user_uniqueness_witness:
  "reachable sample_store
   \<and> map username (users sample_store) = [''alice'', ''bob'']
   \<and> in_username sample_alice = Some ''alice''
   \<and> distinct (map username (users sample_store)) \<and> distinct (map email (users sample_store))
   \<and> status (fst (createUser sample_store sample_alice)) = 400
   \<and> snd (createUser sample_store sample_alice) = sample_store"
proof -
  have u: "hd (users sample_store) \<in> set (users sample_store)"
    and n: "in_username sample_alice = Some (username (hd (users sample_store)))"
    by (simp_all add: sample_store_eq sample_alice_def)
  have m: "map username (users sample_store) = [''alice'', ''bob'']"
    "in_username sample_alice = Some ''alice''"
    by (simp_all add: sample_store_eq sample_alice_def)
  from user_uniqueness [OF reachable_sample_store] u n m reachable_sample_store
  show ?thesis by blast
qed

section \<open>Validity of the friendship relation\<close>

lemma friendsValid_iff:
  "friendsValid s \<longleftrightarrow>
     (\<forall>u\<in>set (users s). \<forall>f\<in>set (friends u).
        \<exists>v\<in>set (users s). user_id v = f \<and> user_id u \<in> set (friends v))"
  by (simp add: friendsValid_def list_all_iff list_ex_iff)

lemma friendsValid_key:
  assumes "map (\<lambda>u. (user_id u, friends u)) (users s') = map (\<lambda>u. (user_id u, friends u)) (users s)"
  shows "friendsValid s' = friendsValid s"
proof -
  have E: "friendsValid t \<longleftrightarrow>
     (\<forall>p\<in>set (map (\<lambda>u. (user_id u, friends u)) (users t)). \<forall>f\<in>set (snd p).
        \<exists>q\<in>set (map (\<lambda>u. (user_id u, friends u)) (users t)). fst q = f \<and> fst p \<in> set (snd q))"
    for t
    by (simp add: friendsValid_iff)
  show ?thesis unfolding E assms ..
qed

lemma friendsValid_update_users:
  assumes "\<And>x. user_id (f x) = user_id x" and "\<And>x. friends (f x) = friends x"
  shows "friendsValid (s\<lparr>users := snd (findOneAndUpdate P f (users s))\<rparr>) = friendsValid s"
  by (rule friendsValid_key) (simp add: map_update_key assms)

lemma update_as_map:
  "distinct (map user_id xs) \<Longrightarrow>
   snd (findOneAndUpdate (byId i) f xs) = map (\<lambda>y. if user_id y = i then f y else y) xs"
proof (induction xs)
  case Nil
  show ?case by simp
next
  case (Cons y ys)
  show ?case
  proof (cases "user_id y = i")
    case True
    from Cons.prems have "user_id y \<notin> user_id ` set ys" by simp
    with True have "\<forall>x\<in>set ys. user_id x \<noteq> i" by (metis imageI)
    then have "map (\<lambda>y. if user_id y = i then f y else y) ys = ys"
      by (intro map_idI) simp
    with True show ?thesis by (simp add: byId_def)
  next
    case False
    with Cons show ?thesis by (simp add: byId_def case_prod_unfold)
  qed
qed

lemma set_addToSet [simp]: "set (addToSet x xs) = insert x (set xs)"
  by (auto simp: addToSet_def)

lemma set_pull [simp]: "set (pull x xs) = set xs - {x}"
  by (auto simp: pull_def)

lemma delete_as_filter:
  "distinct (map user_id xs) \<Longrightarrow>
   snd (findOneAndDelete (byId i) xs) = filter (\<lambda>y. user_id y \<noteq> i) xs"
proof (induction xs)
  case Nil
  show ?case by simp
next
  case (Cons y ys)
  show ?case
  proof (cases "user_id y = i")
    case True
    from Cons.prems have "user_id y \<notin> user_id ` set ys" by simp
    with True have "\<forall>x\<in>set ys. user_id x \<noteq> i" by (metis imageI)
    then have "filter (\<lambda>y. user_id y \<noteq> i) ys = ys" by simp
    with True show ?thesis by (simp add: byId_def)
  next
    case False
    with Cons show ?thesis by (simp add: byId_def case_prod_unfold)
  qed
qed

lemma find_byId_unique:
  "distinct (map user_id xs) \<Longrightarrow> x \<in> set xs \<Longrightarrow> find (byId (user_id x)) xs = Some x"
  unfolding byId_def [abs_def] by (rule find_distinct_key)

lemma find_byId_None: "find (byId i) xs = None \<longleftrightarrow> (\<forall>x\<in>set xs. user_id x \<noteq> i)"
  by (auto simp: find_None_iff byId_def)

lemma find_byId_Some: "find (byId i) xs = Some x \<Longrightarrow> x \<in> set xs \<and> user_id x = i"
  by (auto simp: find_Some_iff byId_def)

lemma friendsValid_users: "users s' = users s \<Longrightarrow> friendsValid s' = friendsValid s"
  by (simp add: friendsValid_iff)

lemma friendsValid_createThought:
  "friendsValid s \<Longrightarrow> friendsValid (snd (createThought s now inp))"
proof -
  assume fv: "friendsValid s"
  have "friendsValid (s\<lparr>users := us, thought_docs := ts, nextId := n\<rparr>)
          = friendsValid (s\<lparr>users := us\<rparr>)" for us ts n
    by (simp add: friendsValid_iff)
  with fv show ?thesis
    by (auto simp: createThought_def friendsValid_update_users pushThoughts_def
        split: option.splits)
qed

lemma friendsValid_updateThought:
  "friendsValid s \<Longrightarrow> friendsValid (snd (updateThought s a inp))"
  by (auto simp: updateThought_unfold friendsValid_iff split: option.splits)

lemma friendsValid_deleteThought:
  "friendsValid s \<Longrightarrow> friendsValid (snd (deleteThought s a))"
proof -
  assume fv: "friendsValid s"
  have "friendsValid (s\<lparr>users := us, thought_docs := ts\<rparr>) = friendsValid (s\<lparr>users := us\<rparr>)"
    for us ts
    by (simp add: friendsValid_iff)
  with fv show ?thesis
    by (auto simp: deleteThought_def case_prod_unfold friendsValid_update_users
        pullThoughts_def split: option.splits)
qed

lemma friendsValid_removeFriend:
  assumes d: "distinct (map user_id (users s))" and fv: "friendsValid s"
  shows "friendsValid (snd (removeFriend s a b))"
proof (cases "\<exists>i j u. castObjectId a = Some i \<and> castObjectId b = Some j
    \<and> find (byId i) (users s) = Some u")
  case False
  with fv show ?thesis by (auto simp: removeFriend_unfold split: option.splits)
next
  case True
  then obtain i j u where a: "castObjectId a = Some i" and b: "castObjectId b = Some j"
    and u: "find (byId i) (users s) = Some u" by blast
  define h where "h = (\<lambda>y. if user_id y = j then pullFriends i
      (if user_id y = i then pullFriends j y else y)
      else (if user_id y = i then pullFriends j y else y))"
  define us1 where "us1 = snd (findOneAndUpdate (byId i) (pullFriends j) (users s))"
  have us1: "us1 = map (\<lambda>y. if user_id y = i then pullFriends j y else y) (users s)"
    unfolding us1_def using d by (rule update_as_map)
  have "map user_id us1 = map user_id (users s)"
    unfolding us1_def by (rule map_update_key) (simp add: pullFriends_def)
  with d have "distinct (map user_id us1)" by simp
  then have "snd (findOneAndUpdate (byId j) (pullFriends i) us1)
      = map (\<lambda>y. if user_id y = j then pullFriends i y else y) us1"
    by (rule update_as_map)
  then have us2: "snd (findOneAndUpdate (byId j) (pullFriends i) us1) = map h (users s)"
    by (simp add: us1 h_def pullFriends_def cong: if_cong)
  have res: "snd (removeFriend s a b) = s\<lparr>users := map h (users s)\<rparr>"
    using a b u us2 by (simp add: removeFriend_unfold us1_def)
  have hid: "user_id (h y) = user_id y" for y
    by (simp add: h_def pullFriends_def)
  have hfr: "set (friends (h y)) = set (friends y)
      - (if user_id y = i then {j} else {}) - (if user_id y = j then {i} else {})" for y
    by (auto simp: h_def pullFriends_def)
  have "\<exists>v\<in>set (users s). user_id (h v) = f \<and> user_id (h x) \<in> set (friends (h v))"
    if x: "x \<in> set (users s)" and f: "f \<in> set (friends (h x))" for x f
  proof -
    from f have f0: "f \<in> set (friends x)" by (auto simp: hfr split: if_splits)
    with fv x obtain v where v: "v \<in> set (users s)" "user_id v = f"
      "user_id x \<in> set (friends v)"
      by (auto simp: friendsValid_iff)
    from f v(2) have "\<not> (user_id x = i \<and> user_id v = j)" "\<not> (user_id x = j \<and> user_id v = i)"
      by (auto simp: hfr split: if_splits)
    with v(3) have "user_id x \<in> set (friends (h v))"
      by (auto simp: hfr)
    with v show ?thesis by (auto simp: hid)
  qed
  then show ?thesis unfolding res by (auto simp: friendsValid_iff)
qed

lemma friendsValid_addFriend:
  assumes d: "distinct (map user_id (users s))" and fv: "friendsValid s"
    and ok: "body (fst (addFriend s a b)) \<noteq> Message ''Friend not found.''"
  shows "friendsValid (snd (addFriend s a b))"
proof (cases "\<exists>i j u. castObjectId a = Some i \<and> castObjectId b = Some j
    \<and> find (byId i) (users s) = Some u")
  case False
  with fv show ?thesis by (auto simp: addFriend_unfold split: option.splits)
next
  case True
  then obtain i j u where a: "castObjectId a = Some i" and b: "castObjectId b = Some j"
    and u: "find (byId i) (users s) = Some u" by blast
  define h where "h = (\<lambda>y. if user_id y = j then addToSetFriends i
      (if user_id y = i then addToSetFriends j y else y)
      else (if user_id y = i then addToSetFriends j y else y))"
  define us1 where "us1 = snd (findOneAndUpdate (byId i) (addToSetFriends j) (users s))"
  have us1: "us1 = map (\<lambda>y. if user_id y = i then addToSetFriends j y else y) (users s)"
    unfolding us1_def using d by (rule update_as_map)
  have ids1: "map user_id us1 = map user_id (users s)"
    unfolding us1_def by (rule map_update_key) (simp add: addToSetFriends_def)
  with d have "distinct (map user_id us1)" by simp
  then have "snd (findOneAndUpdate (byId j) (addToSetFriends i) us1)
      = map (\<lambda>y. if user_id y = j then addToSetFriends i y else y) us1"
    by (rule update_as_map)
  then have us2: "snd (findOneAndUpdate (byId j) (addToSetFriends i) us1) = map h (users s)"
    by (simp add: us1 h_def addToSetFriends_def cong: if_cong)
  from ok a b u obtain w where w: "find (byId j) us1 = Some w"
    by (auto simp: addFriend_unfold Let_def us1_def respond_def split: option.splits)
  then have "w \<in> set us1" "user_id w = j" by (auto simp: find_Some_iff byId_def)
  then have "j \<in> user_id ` set us1" by auto
  then have "j \<in> set (map user_id (users s))" using ids1 by (metis set_map)
  then obtain vj where vj: "vj \<in> set (users s)" "user_id vj = j" by auto
  from u have vi: "u \<in> set (users s)" "user_id u = i" by (auto simp: find_Some_iff byId_def)
  have res: "snd (addFriend s a b) = s\<lparr>users := map h (users s)\<rparr>"
    using a b u w us2 by (simp add: addFriend_unfold Let_def us1_def)
  have hid: "user_id (h y) = user_id y" for y
    by (simp add: h_def addToSetFriends_def)
  have hfr: "set (friends (h y)) = set (friends y)
      \<union> (if user_id y = i then {j} else {}) \<union> (if user_id y = j then {i} else {})" for y
    by (auto simp: h_def addToSetFriends_def)
  have "\<exists>v\<in>set (users s). user_id (h v) = f \<and> user_id (h x) \<in> set (friends (h v))"
    if x: "x \<in> set (users s)" and f: "f \<in> set (friends (h x))" for x f
  proof (cases "f \<in> set (friends x)")
    case True
    with fv x obtain v where v: "v \<in> set (users s)" "user_id v = f"
      "user_id x \<in> set (friends v)"
      by (auto simp: friendsValid_iff)
    then show ?thesis by (auto simp: hid hfr)
  next
    case False
    with f consider "user_id x = i" "f = j" | "user_id x = j" "f = i"
      by (auto simp: hfr split: if_splits)
    then show ?thesis
    proof cases
      case 1
      with vj show ?thesis by (auto simp: hid hfr intro!: bexI [of _ vj])
    next
      case 2
      with vi show ?thesis by (auto simp: hid hfr intro!: bexI [of _ u])
    qed
  qed
  then show ?thesis unfolding res by (auto simp: friendsValid_iff)
qed

lemma addFriend_breaks:
  assumes nf: "body (fst (addFriend s a b)) = Message ''Friend not found.''"
  shows "\<not> friendsValid (snd (addFriend s a b))"
proof -
  from nf obtain i j x where a: "castObjectId a = Some i" and b: "castObjectId b = Some j"
    and x: "find (byId i) (users s) = Some x"
    and none: "find (byId j) (snd (findOneAndUpdate (byId i) (addToSetFriends j) (users s))) = None"
    by (auto simp: addFriend_unfold Let_def respond_def split: option.splits)
  define us1 where "us1 = snd (findOneAndUpdate (byId i) (addToSetFriends j) (users s))"
  from a b x none have res: "snd (addFriend s a b) = s\<lparr>users := us1\<rparr>"
    by (simp add: addFriend_unfold Let_def us1_def)
  have "find (byId i) us1 = Some (addToSetFriends j x)"
    unfolding us1_def using x by (simp add: find_update_same)
  then have "addToSetFriends j x \<in> set us1" by (auto dest: find_byId_Some)
  moreover have "j \<in> set (friends (addToSetFriends j x))" by simp
  moreover from none have "\<forall>v\<in>set us1. user_id v \<noteq> j"
    by (simp add: find_byId_None us1_def)
  ultimately show ?thesis unfolding res friendsValid_iff by (simp; metis)
qed

lemma createUser_cases:
  "snd (createUser s inp) = s
   \<or> (\<exists>u. snd (createUser s inp)
          = s\<lparr>users := users s @ [u], nextId := max (nextId s) (Suc (user_id u))\<rparr>
        \<and> (\<forall>v\<in>set (users s). user_id v \<noteq> user_id u))"
  by (auto simp: createUser_def list_ex_iff split: option.splits)

lemma friendsValid_createUser_iff:
  assumes fv: "friendsValid s"
  shows "friendsValid (snd (createUser s inp)) \<longleftrightarrow> keepsFriends s (CreateUser inp)"
proof -
  consider "snd (createUser s inp) = s"
    | u where "snd (createUser s inp)
          = s\<lparr>users := users s @ [u], nextId := max (nextId s) (Suc (user_id u))\<rparr>"
        "\<forall>v\<in>set (users s). user_id v \<noteq> user_id u"
    using createUser_cases [of s inp] by blast
  then show ?thesis
  proof cases
  case 1
  with fv show ?thesis by (simp add: list_all_iff)
next
  case (2 u)
  then have new: "u \<notin> set (users s)" by auto
  have k: "keepsFriends s (CreateUser inp) \<longleftrightarrow> (\<forall>f\<in>set (friends u). f = user_id u)"
    using 2(1) new by (auto simp: list_all_iff)
  have "friendsValid (snd (createUser s inp)) \<longleftrightarrow> (\<forall>f\<in>set (friends u). f = user_id u)"
  proof
    assume v: "friendsValid (snd (createUser s inp))"
    show "\<forall>f\<in>set (friends u). f = user_id u"
    proof (rule ccontr)
      assume "\<not> (\<forall>f\<in>set (friends u). f = user_id u)"
      then obtain f where f: "f \<in> set (friends u)" "f \<noteq> user_id u" by blast
      with v 2(1) obtain w where w: "w \<in> set (users s)" "user_id u \<in> set (friends w)"
        by (fastforce simp: friendsValid_iff)
      with fv obtain z where "z \<in> set (users s)" "user_id z = user_id u"
        by (auto simp: friendsValid_iff)
      with 2(2) show False by auto
    qed
  next
    assume own: "\<forall>f\<in>set (friends u). f = user_id u"
    with fv show "friendsValid (snd (createUser s inp))"
      unfolding 2(1) by (fastforce simp: friendsValid_iff)
  qed
  with k show ?thesis by simp
  qed
qed

lemma updateUser_cases:
  "snd (updateUser s a upd) = s
   \<or> (\<exists>i x. castObjectId a = Some i \<and> find (byId i) (users s) = Some x
        \<and> snd (updateUser s a upd)
          = s\<lparr>users := snd (findOneAndUpdate (byId i) (applyUserUpdate upd) (users s))\<rparr>)"
  by (auto simp: updateUser_def case_prod_unfold fst_findOneAndUpdate
      split: option.splits)

lemma friendsValidD:
  "friendsValid s \<Longrightarrow> u \<in> set (users s) \<Longrightarrow> f \<in> set (friends u) \<Longrightarrow>
   \<exists>w\<in>set (users s). user_id w = f \<and> user_id u \<in> set (friends w)"
  unfolding friendsValid_iff by blast

lemma friendsValidI:
  "(\<And>u f. u \<in> set (users s) \<Longrightarrow> f \<in> set (friends u) \<Longrightarrow>
      \<exists>w\<in>set (users s). user_id w = f \<and> user_id u \<in> set (friends w)) \<Longrightarrow>
   friendsValid s"
  unfolding friendsValid_iff by blast

lemma friendsValid_updateUser_iff:
  assumes d: "distinct (map user_id (users s))" and fv: "friendsValid s"
  shows "friendsValid (snd (updateUser s a upd)) \<longleftrightarrow> keepsFriends s (UpdateUser a upd)"
proof -
  consider "snd (updateUser s a upd) = s"
    | i x where "castObjectId a = Some i" "find (byId i) (users s) = Some x"
        "snd (updateUser s a upd)
          = s\<lparr>users := snd (findOneAndUpdate (byId i) (applyUserUpdate upd) (users s))\<rparr>"
    using updateUser_cases [of s a upd] by blast
  then show ?thesis
  proof cases
    case 1
    with fv show ?thesis by (simp add: findOne_def split: option.splits)
  next
    case (2 i x)
    define g where "g = applyUserUpdate upd"
    define us where "us = map (\<lambda>y. if user_id y = i then g y else y) (users s)"
    define t where "t = s\<lparr>users := us\<rparr>"
    have gid: "user_id (g y) = user_id y" for y
      by (simp add: g_def applyUserUpdate_def)
    have res: "snd (updateUser s a upd) = t"
      using 2(3) d by (simp add: update_as_map us_def g_def t_def)
    have ut: "users t = us" by (simp add: t_def)
    from 2(2) have x: "x \<in> set (users s)" "user_id x = i" by (auto dest: find_byId_Some)
    have only: "y = x" if "y \<in> set (users s)" "user_id y = i" for y
      using d x that by (meson distinct_map inj_onD)
    have gx: "g x \<in> set us"
      unfolding us_def using x by force
    have keep: "z \<in> set us" if "z \<in> set (users s)" "user_id z \<noteq> i" for z
      unfolding us_def using that by force
    have orig: "z = g x \<or> (z \<in> set (users s) \<and> user_id z \<noteq> i)" if "z \<in> set us" for z
    proof -
      from that obtain y where y: "y \<in> set (users s)"
        "z = (if user_id y = i then g y else y)"
        unfolding us_def by auto
      show ?thesis
      proof (cases "user_id y = i")
        case True
        with y only have "z = g x" by simp
        then show ?thesis by simp
      next
        case False
        with y show ?thesis by simp
      qed
    qed
    have "find (byId i) (snd (findOneAndUpdate (byId i) (applyUserUpdate upd) (users s)))
        = Some (g x)"
      using 2(2) by (simp add: find_update_same byId_def applyUserUpdate_def g_def)
    with 2 have k: "keepsFriends s (UpdateUser a upd)
        \<longleftrightarrow> set (friends (g x)) - {i} = set (friends x) - {i}"
      by (simp add: findOne_def)
    have "friendsValid t \<longleftrightarrow> set (friends (g x)) - {i} = set (friends x) - {i}"
    proof
      assume v: "friendsValid t"
      show "set (friends (g x)) - {i} = set (friends x) - {i}"
      proof (intro equalityI subsetI)
        fix f assume "f \<in> set (friends (g x)) - {i}"
        then have f: "f \<in> set (friends (g x))" "f \<noteq> i" by auto
        from friendsValidD [OF v, of "g x" f] gx f(1) ut
        obtain w where w: "w \<in> set us" "user_id w = f" "user_id (g x) \<in> set (friends w)"
          by auto
        from orig [OF w(1)] w(2) f(2) have w0: "w \<in> set (users s)"
          by (auto simp: gid x(2))
        from w(3) have wi: "i \<in> set (friends w)" by (simp add: gid x(2))
        from friendsValidD [OF fv w0 wi]
        obtain z where z: "z \<in> set (users s)" "user_id z = i" "user_id w \<in> set (friends z)"
          by auto
        from only [OF z(1) z(2)] z(3) w(2) have "f \<in> set (friends x)" by simp
        with f(2) show "f \<in> set (friends x) - {i}" by simp
      next
        fix f assume "f \<in> set (friends x) - {i}"
        then have f: "f \<in> set (friends x)" "f \<noteq> i" by auto
        from friendsValidD [OF fv x(1) f(1)] x(2)
        obtain w where w: "w \<in> set (users s)" "user_id w = f" "i \<in> set (friends w)"
          by auto
        from w(1) w(2) f(2) have wt: "w \<in> set (users t)" by (simp add: ut keep)
        from friendsValidD [OF v wt w(3)] ut
        obtain z where z: "z \<in> set us" "user_id z = i" "user_id w \<in> set (friends z)"
          by auto
        from orig [OF z(1)] z(2) have "z = g x" by auto
        with z(3) w(2) have "f \<in> set (friends (g x))" by simp
        with f(2) show "f \<in> set (friends (g x)) - {i}" by simp
      qed
    next
      assume eq: "set (friends (g x)) - {i} = set (friends x) - {i}"
      show "friendsValid t"
      proof (rule friendsValidI)
        fix z f
        assume "z \<in> set (users t)" and f: "f \<in> set (friends z)"
        then have z: "z \<in> set us" by (simp add: ut)
        show "\<exists>w\<in>set (users t). user_id w = f \<and> user_id z \<in> set (friends w)"
        proof (cases "z = g x")
          case True
          note zg = this
          show ?thesis
          proof (cases "f = i")
            case True
            with zg f have "user_id (g x) = f \<and> user_id z \<in> set (friends (g x))"
              by (simp add: gid x(2))
            with gx show ?thesis unfolding ut by blast
          next
            case False
            with zg f eq have "f \<in> set (friends x)" by auto
            from friendsValidD [OF fv x(1) this] x(2)
            obtain w where w: "w \<in> set (users s)" "user_id w = f" "i \<in> set (friends w)"
              by auto
            from w(1) w(2) False have "w \<in> set us" by (simp add: keep)
            moreover from zg w(3) have "user_id z \<in> set (friends w)" by (simp add: gid x(2))
            ultimately show ?thesis using w(2) unfolding ut by blast
          qed
        next
          case False
          with orig [OF z] have z0: "z \<in> set (users s)" "user_id z \<noteq> i" by auto
          from friendsValidD [OF fv z0(1) f]
          obtain w where w: "w \<in> set (users s)" "user_id w = f"
            "user_id z \<in> set (friends w)"
            by auto
          show ?thesis
          proof (cases "f = i")
            case True
            with w only have "w = x" by simp
            with w(3) z0(2) eq have "user_id z \<in> set (friends (g x))" by auto
            moreover from True have "user_id (g x) = f" by (simp add: gid x(2))
            ultimately show ?thesis using gx unfolding ut by blast
          next
            case False
            with w(1) w(2) have "w \<in> set us" by (simp add: keep)
            with w(2) w(3) show ?thesis unfolding ut by blast
          qed
        qed
      qed
    qed
    with k res show ?thesis by simp
  qed
qed

lemma deleteUser_cases:
  "(snd (deleteUser s a) = s
      \<and> (\<forall>i. castObjectId a = Some i \<longrightarrow> find (byId i) (users s) = None))
   \<or> (\<exists>i x. castObjectId a = Some i \<and> find (byId i) (users s) = Some x
        \<and> users (snd (deleteUser s a)) = snd (findOneAndDelete (byId i) (users s)))"
  by (auto simp: deleteUser_def case_prod_unfold fst_findOneAndDelete split: option.splits)

lemma friendsValid_deleteUser_iff:
  assumes d: "distinct (map user_id (users s))" and fv: "friendsValid s"
  shows "friendsValid (snd (deleteUser s a)) \<longleftrightarrow> keepsFriends s (DeleteUser a)"
proof -
  consider "snd (deleteUser s a) = s"
      "\<forall>i. castObjectId a = Some i \<longrightarrow> find (byId i) (users s) = None"
    | i x where "castObjectId a = Some i" "find (byId i) (users s) = Some x"
        "users (snd (deleteUser s a)) = snd (findOneAndDelete (byId i) (users s))"
    using deleteUser_cases [of s a] by blast
  then show ?thesis
  proof cases
  case 1
  have "keepsFriends s (DeleteUser a)"
  proof (cases "castObjectId a")
    case None
    then show ?thesis by simp
  next
    case (Some i)
    with 1(2) have "\<forall>v\<in>set (users s). user_id v \<noteq> i" by (simp add: find_byId_None)
    with fv have "\<forall>u\<in>set (users s). i \<notin> set (friends u)"
      by (fastforce simp: friendsValid_iff)
    with Some show ?thesis by (simp add: list_all_iff)
  qed
  with 1(1) fv show ?thesis by simp
next
  case (2 i x)
  define us where "us = filter (\<lambda>y. user_id y \<noteq> i) (users s)"
  from 2(3) d have res: "users (snd (deleteUser s a)) = us"
    by (simp add: delete_as_filter us_def)
  from 2(1) have k: "keepsFriends s (DeleteUser a)
      \<longleftrightarrow> (\<forall>u\<in>set (users s). user_id u = i \<or> i \<notin> set (friends u))"
    by (simp add: list_all_iff)
  have "friendsValid (snd (deleteUser s a))
      \<longleftrightarrow> (\<forall>u\<in>set (users s). user_id u = i \<or> i \<notin> set (friends u))"
  proof
    assume v: "friendsValid (snd (deleteUser s a))"
    show "\<forall>u\<in>set (users s). user_id u = i \<or> i \<notin> set (friends u)"
    proof (intro ballI, rule ccontr)
      fix u assume "u \<in> set (users s)" "\<not> (user_id u = i \<or> i \<notin> set (friends u))"
      then have "u \<in> set us" "i \<in> set (friends u)" by (auto simp: us_def)
      with v res obtain w where "w \<in> set us" "user_id w = i"
        by (fastforce simp: friendsValid_iff)
      then show False by (simp add: us_def)
    qed
  next
    assume nl: "\<forall>u\<in>set (users s). user_id u = i \<or> i \<notin> set (friends u)"
    have "\<exists>w\<in>set us. user_id w = f \<and> user_id u \<in> set (friends w)"
      if u: "u \<in> set us" and f: "f \<in> set (friends u)" for u f
    proof -
      from u have u0: "u \<in> set (users s)" "user_id u \<noteq> i" by (auto simp: us_def)
      with nl f have "f \<noteq> i" by auto
      moreover from fv u0 f obtain w where "w \<in> set (users s)" "user_id w = f"
        "user_id u \<in> set (friends w)"
        by (fastforce simp: friendsValid_iff)
      ultimately show ?thesis by (intro bexI [of _ w]) (simp_all add: us_def)
    qed
    then show "friendsValid (snd (deleteUser s a))"
      using res by (simp add: friendsValid_iff)
  qed
  with k show ?thesis by simp
  qed
qed

text \<open>
  C3, as stated, fails. From the initial store: create two users, make them friends,
  delete the second one. The store reached holds a friends array with an identifier
  that resolves to no user.
\<close>

theorem friends_dangling_after_delete:
  "reachable (run sample_store [AddFriend sample_id1 sample_id2, DeleteUser sample_id2])
   \<and> friendsValid (run sample_store [AddFriend sample_id1 sample_id2])
   \<and> status (fst (step (run sample_store [AddFriend sample_id1 sample_id2])
          (DeleteUser sample_id2))) = 200
   \<and> map friends (users (run sample_store [AddFriend sample_id1 sample_id2,
          DeleteUser sample_id2])) = [[2]]
   \<and> findOne (byId 2) (users (run sample_store [AddFriend sample_id1 sample_id2,
          DeleteUser sample_id2])) = None
   \<and> \<not> friendsValid (run sample_store [AddFriend sample_id1 sample_id2,
          DeleteUser sample_id2])"
proof -
  have "reachable (run sample_store [AddFriend sample_id1 sample_id2, DeleteUser sample_id2])"
    by (rule reachable_run) (rule reachable_sample_store)
  moreover have "friendsValid (run sample_store [AddFriend sample_id1 sample_id2])"
    by code_simp
  moreover have "status (fst (step (run sample_store [AddFriend sample_id1 sample_id2])
          (DeleteUser sample_id2))) = 200"
    by code_simp
  moreover have "map friends (users (run sample_store [AddFriend sample_id1 sample_id2,
          DeleteUser sample_id2])) = [[2]]"
    by code_simp
  moreover have "findOne (byId 2) (users (run sample_store [AddFriend sample_id1 sample_id2,
          DeleteUser sample_id2])) = None"
    by code_simp
  moreover have "\<not> friendsValid (run sample_store [AddFriend sample_id1 sample_id2,
          DeleteUser sample_id2])"
    by code_simp
  ultimately show ?thesis by blast
qed

text \<open>
  C3, amended. The friendship relation of the initial store is valid, and a step from a
  reachable store with a valid friendship relation leaves it valid exactly when the step
  is none of these: a Create that adds a user listing somebody else, an Update that
  changes which other users the updated user lists, a Delete of a user that another
  user lists, an AddFriend that answers that the friend was not found.
\<close>

theorem friends_valid_preserved:
  assumes r: "reachable s" and fv: "friendsValid s"
  shows "friendsValid init
       \<and> (friendsValid (snd (step s req)) \<longleftrightarrow> keepsFriends s req)"
proof
  show "friendsValid init" by (simp add: friendsValid_def init_def)
  from r have d: "distinct (map user_id (users s))"
    by (auto dest: reachable_storeInv simp: storeInv_def usersInv_def)
  show "friendsValid (snd (step s req)) \<longleftrightarrow> keepsFriends s req"
  proof (cases req)
    case (CreateUser inp)
    with fv show ?thesis by (simp add: friendsValid_createUser_iff)
  next
    case (UpdateUser a upd)
    with d fv show ?thesis by (simp add: friendsValid_updateUser_iff)
  next
    case (DeleteUser a)
    with d fv show ?thesis by (simp add: friendsValid_deleteUser_iff)
  next
    case (AddFriend a b)
    with d fv show ?thesis
      using friendsValid_addFriend [of s a b] addFriend_breaks [of s a b] by auto
  next
    case (RemoveFriend a b)
    with d fv show ?thesis by (simp add: friendsValid_removeFriend)
  qed (simp_all add: fv storeInv_getters friendsValid_createThought
      friendsValid_updateThought friendsValid_deleteThought)
qed

theorem friends_valid_preserved_witness:
  "reachable sample_store \<and> friendsValid sample_store
   \<and> keepsFriends sample_store (AddFriend sample_id1 sample_id2)
   \<and> map friends (users (snd (step sample_store (AddFriend sample_id1 sample_id2))))
       = [[2], [1]]
   \<and> friendsValid (snd (step sample_store (AddFriend sample_id1 sample_id2)))
   \<and> \<not> keepsFriends sample_store (CreateUser sample_mallory)
   \<and> status (fst (step sample_store (CreateUser sample_mallory))) = 200
   \<and> map friends (users (snd (step sample_store (CreateUser sample_mallory))))
       = [[], [], [9]]
   \<and> \<not> friendsValid (snd (step sample_store (CreateUser sample_mallory)))"
proof -
  have fv: "friendsValid sample_store" by code_simp
  have k1: "keepsFriends sample_store (AddFriend sample_id1 sample_id2)"
    by code_simp
  have fr: "map friends (users (snd (step sample_store (AddFriend sample_id1 sample_id2))))
       = [[2], [1]]"
    by code_simp
  have k2: "\<not> keepsFriends sample_store (CreateUser sample_mallory)"
    by code_simp
  have st: "status (fst (step sample_store (CreateUser sample_mallory))) = 200"
    by code_simp
  have fm: "map friends (users (snd (step sample_store (CreateUser sample_mallory))))
       = [[], [], [9]]"
    by code_simp
  note p = friends_valid_preserved [OF reachable_sample_store fv,
      of "AddFriend sample_id1 sample_id2"]
  note q = friends_valid_preserved [OF reachable_sample_store fv,
      of "CreateUser sample_mallory"]
  from p q reachable_sample_store fv k1 fr k2 st fm show ?thesis by blast
qed

end
